theory Spec2Isabelle
  imports Complex_Main "HOL-Library.Word" "HOL-Library.Log_Nat"
begin

unbundle bit_operations_syntax

section \<open>JavaScript numbers\<close>

text \<open>
  Every numeric value of the program is a JavaScript number, an IEEE-754 binary64 value.
  A finite value is kept as the rational it denotes, the two infinities and NaN are
  separate constructors. The sign of zero is not kept: \<open>Fin 0\<close> stands for both zeros.
  Each arithmetic operation computes the exact rational result and rounds it to the
  nearest binary64 value, ties to the even significand (\<open>fl\<close>).
\<close>

datatype number = Fin rat | PInf | NInf | NaN

text \<open>\<open>ilog2 q\<close> is the binade of a nonzero \<open>q\<close>: the \<open>e\<close> with \<open>2^e \<le> |q| < 2^(e+1)\<close>.\<close>

definition ilog2 :: "rat \<Rightarrow> int" where
  "ilog2 q = (case quotient_of \<bar>q\<bar> of (a, b) \<Rightarrow>
     (let d = bitlen a - bitlen b in if 2 powi d \<le> \<bar>q\<bar> then d else d - 1))"

definition round_half_even :: "rat \<Rightarrow> int" where
  "round_half_even r = (let f = \<lfloor>r\<rfloor>; d = r - of_int f in
     if d < 1 / 2 then f else if 1 / 2 < d then f + 1 else if even f then f else f + 1)"

text \<open>
  Rounding to 53 significant bits; below \<open>2^-1022\<close> the spacing stays \<open>2^-1074\<close>
  (subnormal numbers).
\<close>

definition fl :: "rat \<Rightarrow> rat" where
  "fl q = (if q = 0 then 0 else
     (let e = max (ilog2 q) (- 1022); u = 2 powi (e - 52)
      in of_int (round_half_even (q / u)) * u))"

text \<open>The overflow threshold \<open>2^1024\<close>, written out so that comparisons with it are cheap.\<close>

definition overflow_threshold :: rat where
  "overflow_threshold = 179769313486231590772930519078902473361797697894230657273430081157732675805500963132708477322407536021120113879871393357658789768814416622492847430639474124377767893424865485276302219601246094119453082952085005768838150682342462881473913110540827237163350510684586298239947245938479716304835356329624224137216"

definition to_number :: "rat \<Rightarrow> number" where
  "to_number q = (let r = fl q in
     if overflow_threshold \<le> r then PInf
     else if r \<le> - overflow_threshold then NInf
     else Fin r)"

text \<open>A finite \<open>number\<close> is well formed when its rational is a binary64 value.\<close>

fun is_double :: "number \<Rightarrow> bool" where
  "is_double (Fin q) = (fl q = q \<and> \<bar>q\<bar> < overflow_threshold)"
| "is_double _ = True"

fun fneg :: "number \<Rightarrow> number" where
  "fneg (Fin x) = Fin (- x)"
| "fneg PInf = NInf"
| "fneg NInf = PInf"
| "fneg NaN = NaN"

text \<open>JavaScript \<open>x + y\<close> on numbers.\<close>

fun fadd :: "number \<Rightarrow> number \<Rightarrow> number" where
  "fadd (Fin x) (Fin y) = to_number (x + y)"
| "fadd NaN _ = NaN"
| "fadd _ NaN = NaN"
| "fadd PInf NInf = NaN"
| "fadd NInf PInf = NaN"
| "fadd PInf _ = PInf"
| "fadd _ PInf = PInf"
| "fadd NInf _ = NInf"
| "fadd _ NInf = NInf"

text \<open>JavaScript \<open>x - y\<close>.\<close>

definition fsub :: "number \<Rightarrow> number \<Rightarrow> number" where
  "fsub x y = fadd x (fneg y)"

text \<open>JavaScript \<open>x * y\<close>.\<close>

fun fmul :: "number \<Rightarrow> number \<Rightarrow> number" where
  "fmul (Fin x) (Fin y) = to_number (x * y)"
| "fmul NaN _ = NaN"
| "fmul _ NaN = NaN"
| "fmul (Fin x) PInf = (if x = 0 then NaN else if 0 < x then PInf else NInf)"
| "fmul (Fin x) NInf = (if x = 0 then NaN else if 0 < x then NInf else PInf)"
| "fmul PInf (Fin y) = (if y = 0 then NaN else if 0 < y then PInf else NInf)"
| "fmul NInf (Fin y) = (if y = 0 then NaN else if 0 < y then NInf else PInf)"
| "fmul PInf PInf = PInf"
| "fmul NInf NInf = PInf"
| "fmul PInf NInf = NInf"
| "fmul NInf PInf = NInf"

text \<open>JavaScript \<open>x / y\<close>; a zero divisor is taken as \<open>+0\<close>.\<close>

fun fdiv :: "number \<Rightarrow> number \<Rightarrow> number" where
  "fdiv (Fin x) (Fin y) =
     (if y = 0 then (if x = 0 then NaN else if 0 < x then PInf else NInf)
      else to_number (x / y))"
| "fdiv NaN _ = NaN"
| "fdiv _ NaN = NaN"
| "fdiv (Fin x) _ = Fin 0"
| "fdiv PInf (Fin y) = (if 0 \<le> y then PInf else NInf)"
| "fdiv NInf (Fin y) = (if 0 \<le> y then NInf else PInf)"
| "fdiv _ _ = NaN"

text \<open>JavaScript \<open>x <= y\<close> and \<open>x < y\<close>: false as soon as one side is NaN.\<close>

fun fle :: "number \<Rightarrow> number \<Rightarrow> bool" where
  "fle (Fin x) (Fin y) = (x \<le> y)"
| "fle NaN _ = False"
| "fle _ NaN = False"
| "fle NInf _ = True"
| "fle _ PInf = True"
| "fle _ _ = False"

fun flt :: "number \<Rightarrow> number \<Rightarrow> bool" where
  "flt (Fin x) (Fin y) = (x < y)"
| "flt NaN _ = False"
| "flt _ NaN = False"
| "flt PInf _ = False"
| "flt _ NInf = False"
| "flt NInf _ = True"
| "flt _ PInf = True"

text \<open>\<open>x >= y\<close> and \<open>x > y\<close>.\<close>

definition fge :: "number \<Rightarrow> number \<Rightarrow> bool" where
  "fge x y = fle y x"

definition fgt :: "number \<Rightarrow> number \<Rightarrow> bool" where
  "fgt x y = flt y x"

text \<open>\<open>Math.min(x, y)\<close>: NaN as soon as one argument is NaN.\<close>

fun fmin :: "number \<Rightarrow> number \<Rightarrow> number" where
  "fmin (Fin x) (Fin y) = Fin (min x y)"
| "fmin NaN _ = NaN"
| "fmin _ NaN = NaN"
| "fmin NInf _ = NInf"
| "fmin _ NInf = NInf"
| "fmin PInf y = y"
| "fmin x PInf = x"

text \<open>\<open>Math.max(x, y)\<close>: NaN as soon as one argument is NaN.\<close>

fun fmax :: "number \<Rightarrow> number \<Rightarrow> number" where
  "fmax (Fin x) (Fin y) = Fin (max x y)"
| "fmax NaN _ = NaN"
| "fmax _ NaN = NaN"
| "fmax PInf _ = PInf"
| "fmax _ PInf = PInf"
| "fmax NInf y = y"
| "fmax x NInf = x"

text \<open>\<open>x === y\<close> on numbers: NaN equals nothing.\<close>

fun feq :: "number \<Rightarrow> number \<Rightarrow> bool" where
  "feq (Fin x) (Fin y) = (x = y)"
| "feq PInf PInf = True"
| "feq NInf NInf = True"
| "feq _ _ = False"

text \<open>
  A property that is \<open>undefined\<close> (absent from its object) becomes NaN when it is used
  as a number.
\<close>

fun ToNumber :: "number option \<Rightarrow> number" where
  "ToNumber None = NaN"
| "ToNumber (Some x) = x"

section \<open>Errors\<close>

text \<open>
  The source throws plain \<open>Error\<close> objects told apart by their message; each constructor
  is one such message and carries the identifier the message quotes:
  \<^item> \<open>ConfigurationError\<close>: "Unknown capability: ..." (engine);
  \<^item> \<open>TypeError\<close>: the runtime's own error for calling or reading through \<open>undefined\<close>;
  \<^item> \<open>DuplicateEntityError\<close>: "Structure ... already registered";
  \<^item> \<open>UnknownEntityError\<close>: "Unknown structure: ..." and "Unknown drone: ...";
  \<^item> \<open>InvalidTransitionError\<close>: "Cannot build ..." and "Cannot upgrade ...";
  \<^item> \<open>InvalidStateError\<close>: "Drone ... is not idle", "... is not collecting",
    "... cannot return";
  \<^item> \<open>UnknownRouteError\<close>: "Unknown route: ...";
  \<^item> \<open>CapacityError\<close>: "Drone pool at capacity".
\<close>

datatype error =
    ConfigurationError string
  | TypeError string
  | DuplicateEntityError string
  | UnknownEntityError string
  | InvalidTransitionError string
  | InvalidStateError string
  | UnknownRouteError string
  | CapacityError

section \<open>Capability registry (capabilities.js)\<close>

record sim =
  power_generation :: number
  power_consumption :: number
  visibility_score :: number

record primitive =
  prim_id :: string
  capabilities :: "string list"
  sim :: sim

datatype capability =
  POWER_GENERATION | HABITATION | LIGHTING | AESTHETIC | WAYFINDING | STORAGE | TRANSPORT

text \<open>
  The generator of \<open>createRng\<close> (mulberry32): its state is the 32-bit \<open>s\<close>;
  \<open>seed | 0\<close> reduces an integer seed modulo \<open>2^32\<close>.
\<close>

definition createRng :: "int \<Rightarrow> 32 word" where
  "createRng seed = word_of_int seed"

definition rng_draw :: "32 word \<Rightarrow> number \<times> 32 word" where
  "rng_draw s0 =
     (let s = s0 + 0x6d2b79f5;
          t = (s XOR drop_bit 15 s) * (1 OR s);
          t = (t + (t XOR drop_bit 7 t) * (61 OR t)) XOR t
      in (Fin (of_nat (unat (t XOR drop_bit 14 t)) / 4294967296), s))"

text \<open>
  The \<open>tick\<close> hook of each capability: the partial result object as the list of its
  entries, and the generator state, which no hook advances.
\<close>

fun cap_tick :: "capability \<Rightarrow> primitive \<Rightarrow> 's \<Rightarrow> 32 word \<Rightarrow> (string \<times> number) list \<times> 32 word" where
  "cap_tick POWER_GENERATION p st g = ([(''power_delta'', power_generation (sim p))], g)"
| "cap_tick HABITATION p st g = ([], g)"
| "cap_tick LIGHTING p st g =
     ([(''light_level_delta'', if fgt (power_consumption (sim p)) (Fin 0) then Fin 1 else Fin 0)], g)"
| "cap_tick AESTHETIC p st g = ([(''morale_delta'', Fin (fl (1 / 10)))], g)"
| "cap_tick WAYFINDING p st g = ([(''visibility_score_delta'', visibility_score (sim p))], g)"
| "cap_tick STORAGE p st g = ([], g)"
| "cap_tick TRANSPORT p st g = ([], g)"

text \<open>
  \<open>CAPABILITIES[capName]\<close> reads a property of an object literal: one of the seven own
  properties, or a property inherited from \<open>Object.prototype\<close> (a function or object
  without a \<open>tick\<close> member), or \<open>undefined\<close>.
\<close>

datatype lookup = Own capability | Inherited | Undefined

definition object_prototype_keys :: "string list" where
  "object_prototype_keys =
     [''constructor'', ''hasOwnProperty'', ''isPrototypeOf'', ''propertyIsEnumerable'',
      ''toLocaleString'', ''toString'', ''valueOf'', ''__proto__'',
      ''__defineGetter__'', ''__defineSetter__'', ''__lookupGetter__'', ''__lookupSetter__'']"

definition registry :: "(string \<times> capability) list" where
  "registry =
     [(''POWER_GENERATION'', POWER_GENERATION), (''HABITATION'', HABITATION),
      (''LIGHTING'', LIGHTING), (''AESTHETIC'', AESTHETIC), (''WAYFINDING'', WAYFINDING),
      (''STORAGE'', STORAGE), (''TRANSPORT'', TRANSPORT)]"

definition CAPABILITIES :: "string \<Rightarrow> lookup" where
  "CAPABILITIES capName =
     (case map_of registry capName of
        Some c \<Rightarrow> Own c
      | None \<Rightarrow> if capName \<in> set object_prototype_keys then Inherited else Undefined)"

section \<open>Tick engine\<close>

record TickOutput =
  power_delta :: number
  power_consumed :: number
  light_level_delta :: number
  morale_delta :: number
  visibility_score_delta :: number

definition zero_output :: TickOutput where
  "zero_output = \<lparr>power_delta = Fin 0, power_consumed = Fin 0, light_level_delta = Fin 0,
     morale_delta = Fin 0, visibility_score_delta = Fin 0\<rparr>"

text \<open>\<open>if (key in output) output[key] += value\<close> for the keys the hooks produce.\<close>

definition add_key :: "TickOutput \<Rightarrow> string \<times> number \<Rightarrow> TickOutput" where
  "add_key out kv = (case kv of (key, v) \<Rightarrow>
     if key = ''power_delta'' then out\<lparr>power_delta := fadd (power_delta out) v\<rparr>
     else if key = ''power_consumed'' then out\<lparr>power_consumed := fadd (power_consumed out) v\<rparr>
     else if key = ''light_level_delta'' then out\<lparr>light_level_delta := fadd (light_level_delta out) v\<rparr>
     else if key = ''morale_delta'' then out\<lparr>morale_delta := fadd (morale_delta out) v\<rparr>
     else if key = ''visibility_score_delta''
       then out\<lparr>visibility_score_delta := fadd (visibility_score_delta out) v\<rparr>
     else out)"

definition merge_result :: "TickOutput \<Rightarrow> (string \<times> number) list \<Rightarrow> TickOutput" where
  "merge_result out res = foldl add_key out res"

text \<open>The inner loop over \<open>primitive.capabilities\<close>; a throw leaves the loop at once.\<close>

fun run_caps :: "primitive \<Rightarrow> 's \<Rightarrow> string list \<Rightarrow> TickOutput \<times> 32 word \<Rightarrow> error + TickOutput \<times> 32 word" where
  "run_caps p st [] acc = Inr acc"
| "run_caps p st (capName # rest) acc =
     (case CAPABILITIES capName of
        Undefined \<Rightarrow> Inl (ConfigurationError capName)
      | Inherited \<Rightarrow> Inl (TypeError capName)
      | Own cap \<Rightarrow>
          (case cap_tick cap p st (snd acc) of (res, g) \<Rightarrow>
             run_caps p st rest (merge_result (fst acc) res, g)))"

text \<open>The outer loop over \<open>placedPrimitives\<close>.\<close>

fun tick_loop :: "primitive list \<Rightarrow> 's \<Rightarrow> TickOutput \<times> 32 word \<Rightarrow> error + TickOutput \<times> 32 word" where
  "tick_loop [] st acc = Inr acc"
| "tick_loop (p # ps) st acc =
     (case run_caps p st (capabilities p)
             ((fst acc)\<lparr>power_consumed :=
                 fadd (power_consumed (fst acc)) (power_consumption (sim p))\<rparr>, snd acc) of
        Inl e \<Rightarrow> Inl e
      | Inr acc' \<Rightarrow> tick_loop ps st acc')"

definition tick :: "primitive list \<Rightarrow> 's \<Rightarrow> int \<Rightarrow> error + TickOutput" where
  "tick placedPrimitives sectorState seed =
     (case tick_loop placedPrimitives sectorState (zero_output, createRng seed) of
        Inl e \<Rightarrow> Inl e
      | Inr acc \<Rightarrow> Inr (fst acc))"

text \<open>
  A placed primitive of the shape of \<open>neon_light_strip_v2\<close> (the catalog itself is
  data, not code; the coefficients here are sample values).
\<close>

definition example_strip :: primitive where
  "example_strip = \<lparr>prim_id = ''neon_light_strip_v2'',
     capabilities = [''AESTHETIC'', ''LIGHTING'', ''WAYFINDING''],
     sim = \<lparr>power_generation = Fin 0, power_consumption = Fin 2, visibility_score = Fin 5\<rparr>\<rparr>"

text \<open>
  An accumulator whose fields other than \<open>morale_delta\<close> hold integers, and the names of
  the registry.
\<close>

definition int_output :: "int \<Rightarrow> int \<Rightarrow> int \<Rightarrow> number \<Rightarrow> int \<Rightarrow> TickOutput" where
  "int_output pd pc ll m vs =
     \<lparr>power_delta = Fin (of_int pd), power_consumed = Fin (of_int pc),
      light_level_delta = Fin (of_int ll), morale_delta = m,
      visibility_score_delta = Fin (of_int vs)\<rparr>"

definition registry_names :: "string list" where
  "registry_names = map fst registry"

text \<open>The morale accumulator after \<open>n\<close> AESTHETIC contributions of 0.1, added one at a time.\<close>

definition add_tenths :: "nat \<Rightarrow> number \<Rightarrow> number" where
  "add_tenths n m = ((\<lambda>x. fadd x (Fin (fl (1 / 10)))) ^^ n) m"

text \<open>A primitive whose power consumption is the non-integer 0.1.\<close>

definition tenth_consumer :: primitive where
  "tenth_consumer = \<lparr>prim_id = ''tenth_consumer'', capabilities = [],
     sim = \<lparr>power_generation = Fin 0, power_consumption = Fin (fl (1 / 10)),
            visibility_score = Fin 0\<rparr>\<rparr>"

section \<open>JavaScript \<open>Map\<close> objects\<close>

text \<open>
  A \<open>Map\<close> is the list of its entries in insertion order; \<open>set\<close> replaces the value of
  a present key in place and appends an absent one; \<open>get\<close> is \<open>map_of\<close>.
\<close>

fun map_set :: "'k \<Rightarrow> 'v \<Rightarrow> ('k \<times> 'v) list \<Rightarrow> ('k \<times> 'v) list" where
  "map_set k v [] = [(k, v)]"
| "map_set k v ((k', v') # m) = (if k = k' then (k, v) # m else (k', v') # map_set k v m)"

section \<open>Structure controller (controllers.js)\<close>

datatype StructureState = PLANNED | BUILDING | OPERATIONAL | UPGRADING | DECOMMISSIONED

text \<open>
  The value stored for a structure; \<open>tier\<close> and \<open>ticksRemaining\<close> are JavaScript
  numbers like every other numeric value.
\<close>

record facility =
  state :: StructureState
  tier :: number
  ticksRemaining :: number

type_synonym structure_controller = "(string \<times> facility) list"

text \<open>
  A mutating method returns what the call returns or throws, together with the
  controller as the call leaves it. (\<open>register\<close> takes the tier explicitly; the source
  defaults it to 1.)
\<close>

definition get_structure :: "string \<Rightarrow> structure_controller \<Rightarrow> error + facility" where
  "get_structure ident S =
     (case map_of S ident of None \<Rightarrow> Inl (UnknownEntityError ident) | Some s \<Rightarrow> Inr s)"

definition register :: "string \<Rightarrow> number \<Rightarrow> structure_controller \<Rightarrow> (error + unit) \<times> structure_controller" where
  "register ident t S =
     (if map_of S ident \<noteq> None then (Inl (DuplicateEntityError ident), S)
      else (Inr (), map_set ident \<lparr>state = PLANNED, tier = t, ticksRemaining = Fin 0\<rparr> S))"

definition startBuild :: "string \<Rightarrow> number \<Rightarrow> structure_controller \<Rightarrow> (error + unit) \<times> structure_controller" where
  "startBuild ident ticks S =
     (case get_structure ident S of
        Inl e \<Rightarrow> (Inl e, S)
      | Inr s \<Rightarrow>
          if state s \<noteq> PLANNED then (Inl (InvalidTransitionError ident), S)
          else (Inr (), map_set ident (s\<lparr>state := BUILDING, ticksRemaining := ticks\<rparr>) S))"

definition startUpgrade :: "string \<Rightarrow> number \<Rightarrow> structure_controller \<Rightarrow> (error + unit) \<times> structure_controller" where
  "startUpgrade ident ticks S =
     (case get_structure ident S of
        Inl e \<Rightarrow> (Inl e, S)
      | Inr s \<Rightarrow>
          if state s \<noteq> OPERATIONAL then (Inl (InvalidTransitionError ident), S)
          else (Inr (), map_set ident (s\<lparr>state := UPGRADING, ticksRemaining := ticks\<rparr>) S))"

definition decommission :: "string \<Rightarrow> structure_controller \<Rightarrow> (error + unit) \<times> structure_controller" where
  "decommission ident S =
     (case get_structure ident S of
        Inl e \<Rightarrow> (Inl e, S)
      | Inr s \<Rightarrow> (Inr (), map_set ident (s\<lparr>state := DECOMMISSIONED, ticksRemaining := Fin 0\<rparr>) S))"

text \<open>The body of the loop of \<open>StructureController.tick\<close>, for one structure.\<close>

definition tick_facility :: "facility \<Rightarrow> facility" where
  "tick_facility s =
     (if state s = BUILDING \<or> state s = UPGRADING then
        (let s1 = s\<lparr>ticksRemaining := fmax (Fin 0) (fsub (ticksRemaining s) (Fin 1))\<rparr> in
         if feq (ticksRemaining s1) (Fin 0) then
           (let s2 = (if state s1 = UPGRADING then s1\<lparr>tier := fadd (tier s1) (Fin 1)\<rparr> else s1)
            in s2\<lparr>state := OPERATIONAL\<rparr>)
         else s1)
      else s)"

definition structures_tick :: "structure_controller \<Rightarrow> structure_controller" where
  "structures_tick S = map (\<lambda>(k, s). (k, tick_facility s)) S"

definition getState :: "string \<Rightarrow> structure_controller \<Rightarrow> error + facility" where
  "getState ident S = get_structure ident S"

text \<open>
  One call of a mutating method, and a sequence of calls run one after the other (a call
  that throws leaves the controller as the method left it, and the caller goes on).
\<close>

datatype structure_call =
  Register string number | StartBuild string number | StartUpgrade string number
  | Decommission string | Tick

fun structure_exec :: "structure_call \<Rightarrow> structure_controller \<Rightarrow> (error + unit) \<times> structure_controller" where
  "structure_exec (Register i t) S = register i t S"
| "structure_exec (StartBuild i n) S = startBuild i n S"
| "structure_exec (StartUpgrade i n) S = startUpgrade i n S"
| "structure_exec (Decommission i) S = decommission i S"
| "structure_exec Tick S = (Inr (), structures_tick S)"

definition structure_run :: "structure_call list \<Rightarrow> structure_controller \<Rightarrow> structure_controller" where
  "structure_run calls S = foldl (\<lambda>S c. snd (structure_exec c S)) S calls"

definition decommissioned_example :: structure_controller where
  "decommissioned_example = snd (decommission ''refinery-primary''
     [(''refinery-primary'', \<lparr>state = UPGRADING, tier = Fin 2, ticksRemaining = Fin 2\<rparr>)])"

section \<open>Swarm controller (controllers.js)\<close>

record position =
  pos_x :: number
  pos_y :: number
  pos_z :: number

definition origin :: position where
  "origin = \<lparr>pos_x = Fin 0, pos_y = Fin 0, pos_z = Fin 0\<rparr>"

datatype DroneState = Idle | Collecting | Returning

text \<open>
  A drone's \<open>position\<close> is \<open>None\<close> when it is the empty object that
  \<open>{ ...route.waypoints[0] }\<close> gives for a route whose \<open>waypoints\<close> array is empty
  (every route of the blueprint has the array).
\<close>

record drone =
  cargo :: number
  position :: "position option"
  drone_state :: DroneState
  routeId :: "string option"

record droneSpec =
  cargoCapacity :: number
  returnThreshold :: number

record patrolRoute =
  route_id :: string
  waypoints :: "position list"

record swarmConfig =
  maxDrones :: int
  droneSpec :: droneSpec
  patrolRoutes :: "patrolRoute list"

record swarm =
  config :: swarmConfig
  drones :: "(string \<times> drone) list"
  nextDroneId :: nat

definition new_swarm :: "swarmConfig \<Rightarrow> swarm" where
  "new_swarm cfg = \<lparr>config = cfg, drones = [], nextDroneId = 0\<rparr>"

text \<open>The decimal digits of a natural number, as the template string prints it.\<close>

fun string_of_nat :: "nat \<Rightarrow> string" where
  "string_of_nat n =
     (if n < 10 then [char_of (48 + n)]
      else string_of_nat (n div 10) @ [char_of (48 + n mod 10)])"

declare string_of_nat.simps [simp del]

definition getDrone :: "string \<Rightarrow> swarm \<Rightarrow> error + drone" where
  "getDrone ident W =
     (case map_of (drones W) ident of None \<Rightarrow> Inl (UnknownEntityError ident) | Some d \<Rightarrow> Inr d)"

definition spawnDrone :: "swarm \<Rightarrow> (error + string) \<times> swarm" where
  "spawnDrone W =
     (if maxDrones (config W) \<le> int (length (drones W)) then (Inl CapacityError, W)
      else
        (let ident = ''drone-'' @ string_of_nat (nextDroneId W) in
         (Inr ident,
          W\<lparr>nextDroneId := nextDroneId W + 1,
            drones := map_set ident
              \<lparr>cargo = Fin 0, position = Some origin, drone_state = Idle, routeId = None\<rparr>
              (drones W)\<rparr>)))"

definition dispatch :: "string \<Rightarrow> string \<Rightarrow> swarm \<Rightarrow> (error + unit) \<times> swarm" where
  "dispatch droneId rid W =
     (case getDrone droneId W of
        Inl e \<Rightarrow> (Inl e, W)
      | Inr d \<Rightarrow>
          (case find (\<lambda>r. route_id r = rid) (patrolRoutes (config W)) of
             None \<Rightarrow> (Inl (UnknownRouteError rid), W)
           | Some route \<Rightarrow>
               if drone_state d \<noteq> Idle then (Inl (InvalidStateError droneId), W)
               else
                 (Inr (),
                  W\<lparr>drones := map_set droneId
                     (d\<lparr>drone_state := Collecting, routeId := Some rid,
                        position := (case waypoints route of [] \<Rightarrow> None | wp # _ \<Rightarrow> Some wp)\<rparr>)
                     (drones W)\<rparr>)))"

definition collect :: "string \<Rightarrow> number \<Rightarrow> swarm \<Rightarrow> (error + number) \<times> swarm" where
  "collect droneId amount W =
     (case getDrone droneId W of
        Inl e \<Rightarrow> (Inl e, W)
      | Inr d \<Rightarrow>
          if drone_state d \<noteq> Collecting then (Inl (InvalidStateError droneId), W)
          else
            (let space = fsub (cargoCapacity (droneSpec (config W))) (cargo d);
                 actual = fmin amount space;
                 d1 = d\<lparr>cargo := fadd (cargo d) actual\<rparr>;
                 d2 = (if fge (fdiv (cargo d1) (cargoCapacity (droneSpec (config W))))
                              (fsub (Fin 1) (returnThreshold (droneSpec (config W))))
                       then d1\<lparr>drone_state := Returning\<rparr> else d1)
             in (Inr actual, W\<lparr>drones := map_set droneId d2 (drones W)\<rparr>)))"

definition returnToHub :: "string \<Rightarrow> swarm \<Rightarrow> (error + number) \<times> swarm" where
  "returnToHub droneId W =
     (case getDrone droneId W of
        Inl e \<Rightarrow> (Inl e, W)
      | Inr d \<Rightarrow>
          if drone_state d \<noteq> Returning \<and> drone_state d \<noteq> Collecting
          then (Inl (InvalidStateError droneId), W)
          else
            (Inr (cargo d),
             W\<lparr>drones := map_set droneId
                (d\<lparr>cargo := Fin 0, position := Some origin, drone_state := Idle, routeId := None\<rparr>)
                (drones W)\<rparr>))"

definition getDroneStatus :: "string \<Rightarrow> swarm \<Rightarrow> error + drone" where
  "getDroneStatus ident W = getDrone ident W"

definition idleCount :: "swarm \<Rightarrow> nat" where
  "idleCount W = length (filter (\<lambda>(k, d). drone_state d = Idle) (drones W))"

text \<open>One call of a method of the swarm controller, with the value it returns.\<close>

datatype swarm_call = SpawnDrone | Dispatch string string | Collect string number | ReturnToHub string

datatype swarm_value = DroneId string | Amount number | Done

fun swarm_exec :: "swarm_call \<Rightarrow> swarm \<Rightarrow> (error + swarm_value) \<times> swarm" where
  "swarm_exec SpawnDrone W = (case spawnDrone W of (r, W') \<Rightarrow> (map_sum (\<lambda>e. e) DroneId r, W'))"
| "swarm_exec (Dispatch d r) W = (case dispatch d r W of (r, W') \<Rightarrow> (map_sum (\<lambda>e. e) (\<lambda>_. Done) r, W'))"
| "swarm_exec (Collect d a) W = (case collect d a W of (r, W') \<Rightarrow> (map_sum (\<lambda>e. e) Amount r, W'))"
| "swarm_exec (ReturnToHub d) W = (case returnToHub d W of (r, W') \<Rightarrow> (map_sum (\<lambda>e. e) Amount r, W'))"

definition swarm_run :: "swarm_call list \<Rightarrow> swarm \<Rightarrow> swarm" where
  "swarm_run calls W = foldl (\<lambda>W c. snd (swarm_exec c W)) W calls"

text \<open>
  The swarm section the tests read from the blueprint: twelve drones at most, cargo
  capacity 50, return threshold 0.1, and, of its patrol routes, the one the tests
  dispatch on, whose first waypoint is (-50, 0, 0).
\<close>

definition example_config :: swarmConfig where
  "example_config =
     \<lparr>maxDrones = 12,
      droneSpec = \<lparr>cargoCapacity = Fin 50, returnThreshold = Fin (fl (1 / 10))\<rparr>,
      patrolRoutes = [\<lparr>route_id = ''route-intake-sweep'',
                       waypoints = [\<lparr>pos_x = Fin (- 50), pos_y = Fin 0, pos_z = Fin 0\<rparr>]\<rparr>]\<rparr>"

text \<open>The drone of the tests after \<open>spawnDrone\<close> and \<open>dispatch\<close>.\<close>

definition dispatched_example :: swarm where
  "dispatched_example =
     snd (dispatch ''drone-0'' ''route-intake-sweep'' (snd (spawnDrone (new_swarm example_config))))"

text \<open>
  A cargo that is an integer between 0 and \<open>C\<close>; a call whose collect amount, if any, is
  a non-negative integer; a fleet of capacity \<open>C\<close> in which every cargo is in range.
\<close>

definition cargo_in_range :: "int \<Rightarrow> drone \<Rightarrow> bool" where
  "cargo_in_range C d =
     (case cargo d of Fin q \<Rightarrow> q = of_int \<lfloor>q\<rfloor> \<and> 0 \<le> q \<and> q \<le> of_int C | _ \<Rightarrow> False)"

fun amount_ok :: "swarm_call \<Rightarrow> bool" where
  "amount_ok (Collect d (Fin q)) = (q = of_int \<lfloor>q\<rfloor> \<and> 0 \<le> q)"
| "amount_ok (Collect d _) = False"
| "amount_ok _ = True"

definition fleet_ok :: "int \<Rightarrow> swarm \<Rightarrow> bool" where
  "fleet_ok C W = (cargoCapacity (droneSpec (config W)) = Fin (of_int C) \<and>
     list_all (\<lambda>(k, d). cargo_in_range C d) (drones W))"

text \<open>
  A configuration whose capacity is not an integer: \<open>2 + 3 * 2^-51\<close>, a binary64 value
  with an odd significand.
\<close>

definition rounding_config :: swarmConfig where
  "rounding_config =
     \<lparr>maxDrones = 12,
      droneSpec = \<lparr>cargoCapacity = Fin (2 + 3 / 2 ^ 51), returnThreshold = Fin (fl (1 / 10))\<rparr>,
      patrolRoutes = [\<lparr>route_id = ''route-intake-sweep'',
                       waypoints = [\<lparr>pos_x = Fin (- 50), pos_y = Fin 0, pos_z = Fin 0\<rparr>]\<rparr>]\<rparr>"

section \<open>Planner controller (controllers.js)\<close>

text \<open>
  A structure of the blueprint. Which properties an object has depends on its type, so
  every property besides \<open>id\<close> and \<open>type\<close> is optional; \<open>None\<close> is \<open>undefined\<close>.
\<close>

record bp_structure =
  s_id :: string
  s_type :: string
  throughput :: "number option"
  rate :: "number option"
  s_from :: "string option"
  inputTypes :: "string list option"
  outputTypes :: "string list option"
  storedType :: "string option"
  maxUnits :: "number option"

record zone =
  zone_id :: string
  structures :: "bp_structure list"

record connection =
  conn_from :: string
  conn_to :: string
  bandwidth :: "number option"

record blueprint =
  zones :: "zone list"
  connections :: "connection list"

text \<open>
  \<open>_index\<close>: the map from zone id to the zone's \<open>structuresById\<close>. A zone id that
  occurs again replaces the entry with a fresh map.
\<close>

definition index_zone :: "zone \<Rightarrow> (string \<times> bp_structure) list" where
  "index_zone z = foldl (\<lambda>m s. map_set (s_id s) s m) [] (structures z)"

definition index_zones :: "blueprint \<Rightarrow> (string \<times> (string \<times> bp_structure) list) list" where
  "index_zones bp = foldl (\<lambda>m z. map_set (zone_id z) (index_zone z) m) [] (zones bp)"

text \<open>\<open>[...zone.structuresById.values()]\<close> of the zone \<open>zid\<close>, if the zone exists.\<close>

definition zone_values :: "blueprint \<Rightarrow> string \<Rightarrow> bp_structure list option" where
  "zone_values bp zid = map_option (map snd) (map_of (index_zones bp) zid)"

text \<open>\<open>zone ? [...].find(pred) : null\<close>.\<close>

definition find_in_zone :: "blueprint \<Rightarrow> string \<Rightarrow> (bp_structure \<Rightarrow> bool) \<Rightarrow> bp_structure option" where
  "find_in_zone bp zid pred = (case zone_values bp zid of None \<Rightarrow> None | Some vs \<Rightarrow> find pred vs)"

record route_result =
  route :: "string list"
  result_throughput :: number

text \<open>\<open>xs.indexOf(x)\<close> for an \<open>x\<close> that occurs in \<open>xs\<close>, and \<open>xs[i]\<close> (\<open>undefined\<close> out of range).\<close>

fun indexOf :: "'a list \<Rightarrow> 'a \<Rightarrow> nat" where
  "indexOf [] x = 0"
| "indexOf (y # ys) x = (if x = y then 0 else Suc (indexOf ys x))"

definition element_at :: "'a list \<Rightarrow> nat \<Rightarrow> 'a option" where
  "element_at xs i = (if i < length xs then Some (xs ! i) else None)"

definition intake_dock :: "blueprint \<Rightarrow> bp_structure option" where
  "intake_dock bp = find_in_zone bp ''intake-zone'' (\<lambda>s. s_type s = ''dock'')"

definition intake_conveyor :: "blueprint \<Rightarrow> bp_structure \<Rightarrow> bp_structure option" where
  "intake_conveyor bp dock =
     find_in_zone bp ''intake-zone'' (\<lambda>s. s_type s = ''conveyor'' \<and> s_from s = Some (s_id dock))"

definition accepting_refinery :: "blueprint \<Rightarrow> string \<Rightarrow> bp_structure option" where
  "accepting_refinery bp resourceType =
     find_in_zone bp ''processing-zone''
       (\<lambda>s. s_type s = ''refinery'' \<and>
            (case inputTypes s of None \<Rightarrow> False | Some ts \<Rightarrow> resourceType \<in> set ts))"

definition outbound_dock :: "blueprint \<Rightarrow> bp_structure option" where
  "outbound_dock bp = find_in_zone bp ''distribution-zone'' (\<lambda>s. s_type s = ''dock'')"

text \<open>
  Stage 4: the output type matching the resource (reading \<open>length\<close> of an absent
  \<open>outputTypes\<close> throws), then the silo or vault storing it.
\<close>

definition output_type :: "bp_structure option \<Rightarrow> string \<Rightarrow> error + string option" where
  "output_type refinery resourceType =
     (case refinery of
        None \<Rightarrow> Inr (Some resourceType)
      | Some r \<Rightarrow>
          (case outputTypes r of
             None \<Rightarrow> Inl (TypeError (s_id r))
           | Some outs \<Rightarrow>
               (case inputTypes r of
                  None \<Rightarrow> Inl (TypeError (s_id r))
                | Some ins \<Rightarrow>
                    (let inputIdx = indexOf ins resourceType in
                     if inputIdx < length outs then Inr (element_at outs inputIdx)
                     else Inr (element_at outs 0)))))"

definition storage_stage :: "blueprint \<Rightarrow> bp_structure option \<Rightarrow> string \<Rightarrow> error + string list" where
  "storage_stage bp refinery resourceType =
     (case zone_values bp ''storage-zone'' of
        None \<Rightarrow> Inr []
      | Some vs \<Rightarrow>
          (case output_type refinery resourceType of
             Inl e \<Rightarrow> Inl e
           | Inr outputType \<Rightarrow>
               (case find (\<lambda>s. (s_type s = ''silo'' \<or> s_type s = ''vault'') \<and> storedType s = outputType) vs of
                  None \<Rightarrow> Inr []
                | Some silo \<Rightarrow> Inr [s_id silo])))"

definition planRoute :: "blueprint \<Rightarrow> string \<Rightarrow> error + route_result" where
  "planRoute bp resourceType =
     (case intake_dock bp of
        None \<Rightarrow> Inr \<lparr>route = [], result_throughput = Fin 0\<rparr>
      | Some dock \<Rightarrow>
          (let route1 = [s_id dock];
               t1 = fmin PInf (ToNumber (throughput dock));
               conveyor = intake_conveyor bp dock;
               route2 = (case conveyor of None \<Rightarrow> route1 | Some c \<Rightarrow> route1 @ [s_id c]);
               t2 = (case conveyor of None \<Rightarrow> t1 | Some c \<Rightarrow> fmin t1 (ToNumber (rate c)));
               refinery = accepting_refinery bp resourceType;
               route3 = (case refinery of None \<Rightarrow> route2 | Some r \<Rightarrow> route2 @ [s_id r])
           in case storage_stage bp refinery resourceType of
                Inl e \<Rightarrow> Inl e
              | Inr silo \<Rightarrow>
                  (let route4 = route3 @ silo;
                       outDock = outbound_dock bp;
                       route5 = (case outDock of None \<Rightarrow> route4 | Some d \<Rightarrow> route4 @ [s_id d]);
                       t3 = (case outDock of None \<Rightarrow> t2 | Some d \<Rightarrow> fmin t2 (ToNumber (throughput d)));
                       t4 = foldl (\<lambda>t conn. fmin t (ToNumber (bandwidth conn))) t3 (connections bp)
                   in Inr \<lparr>route = route5, result_throughput = t4\<rparr>)))"

text \<open>\<open>if (s.maxUnits) total += s.maxUnits\<close>: zero and NaN are falsy.\<close>

fun truthy :: "number option \<Rightarrow> bool" where
  "truthy None = False"
| "truthy (Some NaN) = False"
| "truthy (Some (Fin q)) = (q \<noteq> 0)"
| "truthy (Some _) = True"

definition totalStorageCapacity :: "blueprint \<Rightarrow> number" where
  "totalStorageCapacity bp =
     (case zone_values bp ''storage-zone'' of
        None \<Rightarrow> Fin 0
      | Some vs \<Rightarrow> foldl (\<lambda>total s. if truthy (maxUnits s) then fadd total (ToNumber (maxUnits s)) else total) (Fin 0) vs)"

text \<open>
  The numbers that clamp the throughput of a route that starts at \<open>dock\<close>: the dock's own
  throughput, the conveyor's rate and the outbound dock's throughput when they exist,
  and the bandwidth of every connection.
\<close>

definition throughput_clamps :: "blueprint \<Rightarrow> bp_structure \<Rightarrow> number list" where
  "throughput_clamps bp dock =
     ToNumber (throughput dock)
     # (case intake_conveyor bp dock of None \<Rightarrow> [] | Some c \<Rightarrow> [ToNumber (rate c)])
     @ (case outbound_dock bp of None \<Rightarrow> [] | Some d \<Rightarrow> [ToNumber (throughput d)])
     @ map (\<lambda>conn. ToNumber (bandwidth conn)) (connections bp)"

text \<open>
  A blueprint with the pipeline of the tests (dock, conveyor, refinery, silo and vault,
  outbound dock), in which the intake dock is the slowest stage.
\<close>

definition plain_structure :: "string \<Rightarrow> string \<Rightarrow> bp_structure" where
  "plain_structure i t =
     \<lparr>s_id = i, s_type = t, throughput = None, rate = None, s_from = None, inputTypes = None,
      outputTypes = None, storedType = None, maxUnits = None\<rparr>"

definition clamp_example :: blueprint where
  "clamp_example =
     \<lparr>zones =
        [\<lparr>zone_id = ''intake-zone'',
          structures =
            [(plain_structure ''intake-dock-1'' ''dock'')\<lparr>throughput := Some (Fin 50)\<rparr>,
             (plain_structure ''conveyor-1'' ''conveyor'')
               \<lparr>rate := Some (Fin 80), s_from := Some ''intake-dock-1''\<rparr>]\<rparr>,
         \<lparr>zone_id = ''processing-zone'',
          structures =
            [(plain_structure ''refinery-primary'' ''refinery'')
               \<lparr>inputTypes := Some [''raw-ore'', ''crystal-shard''],
                outputTypes := Some [''refined-ore'', ''crystal-dust'']\<rparr>]\<rparr>,
         \<lparr>zone_id = ''storage-zone'',
          structures =
            [(plain_structure ''silo-refined'' ''silo'')
               \<lparr>storedType := Some ''refined-ore'', maxUnits := Some (Fin 800)\<rparr>,
             (plain_structure ''vault-crystal'' ''vault'')
               \<lparr>storedType := Some ''crystal-dust'', maxUnits := Some (Fin 200)\<rparr>]\<rparr>,
         \<lparr>zone_id = ''distribution-zone'',
          structures =
            [(plain_structure ''out-dock-1'' ''dock'')\<lparr>throughput := Some (Fin 80)\<rparr>]\<rparr>],
      connections =
        [\<lparr>conn_from = ''intake-zone'', conn_to = ''processing-zone'', bandwidth = Some (Fin 100)\<rparr>,
         \<lparr>conn_from = ''processing-zone'', conn_to = ''storage-zone'', bandwidth = Some (Fin 100)\<rparr>,
         \<lparr>conn_from = ''storage-zone'', conn_to = ''distribution-zone'', bandwidth = Some (Fin 100)\<rparr>]\<rparr>"

section \<open>Facts about rounding\<close>

lemma fl_one: "fl 1 = 1" by code_simp
lemma fl_two: "fl 2 = 2" by code_simp
lemma fl_five: "fl 5 = 5" by code_simp
lemma fl_tenth_fix: "fl (fl (1 / 10)) = fl (1 / 10)" by code_simp
lemma tenth_small: "\<bar>fl (1 / 10)\<bar> < overflow_threshold" by code_simp

lemma fadd_zero_left: "is_double c \<Longrightarrow> fadd (Fin 0) c = c"
  by (cases c) (auto simp: to_number_def Let_def)

lemma is_double_one: "is_double (Fin 1)"
  using fl_one by (simp add: overflow_threshold_def)

lemma is_double_two: "is_double (Fin 2)"
  using fl_two by (simp add: overflow_threshold_def)

lemma is_double_five: "is_double (Fin 5)"
  using fl_five by (simp add: overflow_threshold_def)

lemma is_double_tenth: "is_double (Fin (fl (1 / 10)))"
  using fl_tenth_fix tenth_small by simp

lemma round_half_even_of_int: "round_half_even (of_int m) = m"
  by (simp add: round_half_even_def)

lemma ilog2_of_int:
  assumes "n \<noteq> 0"
  shows "ilog2 (of_int n) = bitlen \<bar>n\<bar> - 1"
proof -
  have pos: "0 < \<bar>n\<bar>" using assms by simp
  have "\<bar>of_int n :: rat\<bar> = of_int \<bar>n\<bar>" by simp
  then have q: "quotient_of \<bar>of_int n :: rat\<bar> = (\<bar>n\<bar>, 1)"
    by (simp only: quotient_of_rat_of_int)
  have b1: "bitlen 1 = 1" by (simp add: bitlen_alt_def)
  have ge: "1 \<le> bitlen \<bar>n\<bar>" using pos by (simp add: bitlen_alt_def)
  have "(2::int) ^ nat (bitlen \<bar>n\<bar> - 1) \<le> \<bar>n\<bar>" using bitlen_bounds[OF pos] by simp
  then have "(of_int ((2::int) ^ nat (bitlen \<bar>n\<bar> - 1)) :: rat) \<le> of_int \<bar>n\<bar>"
    by (simp only: of_int_le_iff)
  then have le: "(2::rat) powi (bitlen \<bar>n\<bar> - 1) \<le> \<bar>of_int n\<bar>"
    using ge by (simp add: power_int_def)
  show ?thesis
    unfolding ilog2_def q using le by (simp add: b1 Let_def)
qed

lemma fl_of_int:
  assumes "\<bar>n\<bar> < 2 ^ 53"
  shows "fl (of_int n) = of_int n"
proof (cases "n = 0")
  case True
  then show ?thesis by (simp add: fl_def)
next
  case False
  then have pos: "0 < \<bar>n\<bar>" by simp
  define e where "e = bitlen \<bar>n\<bar> - 1"
  have ge: "0 \<le> e" using pos by (simp add: e_def bitlen_alt_def)
  have "bitlen \<bar>n\<bar> \<le> 53"
    using assms by (simp add: bitlen_le_iff_power)
  then have le: "e \<le> 52" by (simp add: e_def)
  define k where "k = nat (52 - e)"
  have u: "(2::rat) powi (e - 52) = 1 / 2 ^ k"
    using le by (simp add: power_int_def k_def field_simps)
  have "(of_int n :: rat) / (2 powi (e - 52)) = of_int (n * 2 ^ k)"
    unfolding u by simp
  then have r: "round_half_even ((of_int n :: rat) / (2 powi (e - 52))) = n * 2 ^ k"
    by (simp only: round_half_even_of_int)
  have m: "max e (- 1022) = e" using ge by simp
  have nz: "(of_int n :: rat) \<noteq> 0" using False by simp
  have "fl (of_int n) =
      of_int (round_half_even (of_int n / 2 powi (e - 52))) * 2 powi (e - 52)"
    by (simp only: fl_def ilog2_of_int[OF False] e_def[symmetric] Let_def m nz if_False)
  also have "\<dots> = of_int (n * 2 ^ k) * 2 powi (e - 52)" by (simp only: r)
  also have "\<dots> = of_int (n * 2 ^ k) * (1 / 2 ^ k)" by (simp only: u)
  also have "\<dots> = of_int n" by simp
  finally show ?thesis .
qed

lemma to_number_of_int:
  assumes "\<bar>n\<bar> < 2 ^ 53"
  shows "to_number (of_int n) = Fin (of_int n)"
proof -
  have "(of_int \<bar>n\<bar> :: rat) < of_int (2 ^ 53)"
    using assms by (simp only: of_int_less_iff)
  then have b: "\<bar>of_int n :: rat\<bar> < 2 ^ 53" by simp
  have b1: "(of_int n :: rat) < 2 ^ 53" and b2: "- ((2::rat) ^ 53) < of_int n"
    using b unfolding abs_less_iff by (simp_all only: minus_less_iff)
  have t: "(2::rat) ^ 53 < overflow_threshold"
    unfolding overflow_threshold_def by simp
  have u1: "(of_int n :: rat) < overflow_threshold"
    using b1 t by (rule less_trans)
  have "- overflow_threshold < - ((2::rat) ^ 53)"
    using t by (simp only: neg_less_iff_less)
  then have u2: "- overflow_threshold < (of_int n :: rat)"
    using b2 by (rule less_trans)
  have c: "\<not> overflow_threshold \<le> (of_int n :: rat)" "\<not> (of_int n :: rat) \<le> - overflow_threshold"
    using u1 u2 by (simp_all only: not_le)
  show ?thesis
    unfolding to_number_def fl_of_int[OF assms] Let_def using c by (simp only: if_False)
qed


lemma fadd_int:
  "\<bar>a + b\<bar> < 2 ^ 53 \<Longrightarrow> fadd (Fin (of_int a)) (Fin (of_int b)) = Fin (of_int (a + b))"
  using to_number_of_int[of "a + b"] by simp

lemma fsub_int:
  "\<bar>a - b\<bar> < 2 ^ 53 \<Longrightarrow> fsub (Fin (of_int a)) (Fin (of_int b)) = Fin (of_int (a - b))"
  using to_number_of_int[of "a - b"] by (simp add: fsub_def)

lemma fmin_int: "fmin (Fin (of_int a)) (Fin (of_int b)) = Fin (of_int (min a b))"
  by (simp add: min_def)

lemma perm3:
  assumes "distinct xs" "set xs = {a, b, c}" "a \<noteq> b" "a \<noteq> c" "b \<noteq> c"
  shows "xs \<in> {[a,b,c],[a,c,b],[b,a,c],[b,c,a],[c,a,b],[c,b,a]}"
proof -
  have "length xs = 3" using assms distinct_card[of xs] by simp
  then obtain x y z where xs: "xs = [x, y, z]"
    by (metis (no_types) length_0_conv length_Suc_conv numeral_3_eq_3)
  have d: "x \<noteq> y" "x \<noteq> z" "y \<noteq> z" using assms(1) xs by auto
  have "x \<in> set xs" "y \<in> set xs" "z \<in> set xs" using xs by simp_all
  then have m: "x \<in> {a, b, c}" "y \<in> {a, b, c}" "z \<in> {a, b, c}"
    unfolding assms(2) by blast+
  show ?thesis using d m unfolding xs by auto
qed

lemma CAP_simps:
  "CAPABILITIES ''AESTHETIC'' = Own AESTHETIC"
  "CAPABILITIES ''LIGHTING'' = Own LIGHTING"
  "CAPABILITIES ''WAYFINDING'' = Own WAYFINDING"
  "CAPABILITIES ''toString'' = Inherited"
  by (simp_all add: CAPABILITIES_def registry_def object_prototype_keys_def)

lemma tick_example_strip:
  "tick [example_strip] st seed =
    Inr \<lparr>power_delta = Fin 0, power_consumed = Fin 2, light_level_delta = Fin 1,
         morale_delta = Fin (fl (1 / 10)), visibility_score_delta = Fin 5\<rparr>"
  using fadd_zero_left[OF is_double_one] fadd_zero_left[OF is_double_tenth]
      fadd_zero_left[OF is_double_two] fadd_zero_left[OF is_double_five]
  by (simp add: tick_def example_strip_def zero_output_def CAP_simps merge_result_def add_key_def fgt_def)

section \<open>Tick engine: determinism, the worked example, unknown capabilities\<close>

text \<open>No hook reads or advances the generator.\<close>

lemma cap_tick_generator:
  "cap_tick cap p st g = (fst (cap_tick cap p st g'), g)"
  by (cases cap) simp_all

lemma run_caps_generator:
  "map_sum (\<lambda>e. e) fst (run_caps p st cs (out, g)) =
   map_sum (\<lambda>e. e) fst (run_caps p st cs (out, g'))"
proof (induction cs arbitrary: out)
  case Nil
  show ?case by simp
next
  case (Cons n cs)
  show ?case
  proof (cases "CAPABILITIES n")
    case (Own cap)
    have step: "run_caps p st (n # cs) (out, h) =
        run_caps p st cs (merge_result out (fst (cap_tick cap p st g)), h)" for h
      using cap_tick_generator[of cap p st h g] by (simp add: Own)
    show ?thesis unfolding step by (rule Cons.IH)
  qed simp_all
qed

lemma tick_loop_generator:
  "map_sum (\<lambda>e. e) fst (tick_loop ps st (out, g)) =
   map_sum (\<lambda>e. e) fst (tick_loop ps st (out, g'))"
proof (induction ps arbitrary: out g g')
  case Nil
  show ?case by simp
next
  case (Cons p ps)
  let ?out = "out\<lparr>power_consumed := fadd (power_consumed out) (power_consumption (sim p))\<rparr>"
  have inner: "map_sum (\<lambda>e. e) fst (run_caps p st (capabilities p) (?out, g)) =
      map_sum (\<lambda>e. e) fst (run_caps p st (capabilities p) (?out, g'))"
    by (rule run_caps_generator)
  show ?case
  proof (cases "run_caps p st (capabilities p) (?out, g)")
    case (Inl e)
    with inner have "run_caps p st (capabilities p) (?out, g') = Inl e"
      by (cases "run_caps p st (capabilities p) (?out, g')") simp_all
    with Inl show ?thesis by simp
  next
    case (Inr acc)
    with inner obtain acc' where acc': "run_caps p st (capabilities p) (?out, g') = Inr acc'"
      "fst acc' = fst acc"
      by (cases "run_caps p st (capabilities p) (?out, g')") simp_all
    have "tick_loop (p # ps) st (out, g) = tick_loop ps st (fst acc, snd acc)"
      using Inr by simp
    moreover have "tick_loop (p # ps) st (out, g') = tick_loop ps st (fst acc, snd acc')"
      using acc' by (cases acc') simp
    ultimately show ?thesis using Cons.IH[of "fst acc" "snd acc" "snd acc'"] by simp
  qed
qed

lemma tick_example_strip_loop:
  "tick_loop [example_strip] st (zero_output, g) =
    Inr (\<lparr>power_delta = Fin 0, power_consumed = Fin 2, light_level_delta = Fin 1,
         morale_delta = Fin (fl (1 / 10)), visibility_score_delta = Fin 5\<rparr>, g)"
  using fadd_zero_left[OF is_double_one] fadd_zero_left[OF is_double_tenth]
      fadd_zero_left[OF is_double_two] fadd_zero_left[OF is_double_five]
  by (simp add: example_strip_def zero_output_def CAP_simps merge_result_def add_key_def fgt_def)

text \<open>
  C1. Two calls of \<open>tick\<close> with identical placed primitives, sector state and integer
  seed return identical outputs. The only state a call holds besides its arguments is
  the generator it creates from the seed, which the loop threads through every hook;
  the result of the loop does not depend on that state (no hook draws from it), so two
  runs of the loop on the same arguments agree whatever the generators they start from,
  and each agrees with \<open>tick\<close>.
\<close>

theorem tick_deterministic:
  "placedPrimitives = placedPrimitives' \<Longrightarrow> sectorState = sectorState' \<Longrightarrow> seed = seed' \<Longrightarrow>
   tick placedPrimitives sectorState seed = tick placedPrimitives' sectorState' seed' \<and>
   map_sum (\<lambda>e. e) fst (tick_loop placedPrimitives sectorState (zero_output, g)) =
     map_sum (\<lambda>e. e) fst (tick_loop placedPrimitives' sectorState' (zero_output, g')) \<and>
   tick placedPrimitives sectorState seed =
     map_sum (\<lambda>e. e) fst (tick_loop placedPrimitives' sectorState' (zero_output, g'))"
proof -
  assume eq: "placedPrimitives = placedPrimitives'" "sectorState = sectorState'" "seed = seed'"
  have t: "tick placedPrimitives' sectorState' seed' =
      map_sum (\<lambda>e. e) fst (tick_loop placedPrimitives' sectorState' (zero_output, createRng seed'))"
    by (cases "tick_loop placedPrimitives' sectorState' (zero_output, createRng seed')")
       (simp_all add: tick_def)
  show ?thesis
    unfolding eq t
    using tick_loop_generator[of placedPrimitives' sectorState' zero_output g g']
      tick_loop_generator[of placedPrimitives' sectorState' zero_output "createRng seed'" g']
    by simp
qed

theorem tick_deterministic_witness:
  "tick [example_strip] () 42 = tick [example_strip] () 42 \<and>
   map_sum (\<lambda>e. e) fst (tick_loop [example_strip] () (zero_output, 0)) =
     map_sum (\<lambda>e. e) fst (tick_loop [example_strip] () (zero_output, 4294967295)) \<and>
   tick [example_strip] () 42 =
     map_sum (\<lambda>e. e) fst (tick_loop [example_strip] () (zero_output, 4294967295)) \<and>
   tick [example_strip] () 42 = Inr \<lparr>power_delta = Fin 0, power_consumed = Fin 2,
     light_level_delta = Fin 1, morale_delta = Fin (fl (1 / 10)), visibility_score_delta = Fin 5\<rparr>"
  using tick_deterministic[of "[example_strip]" "[example_strip]" "()" "()" 42 42 0 4294967295]
    tick_example_strip_loop[of "()" 4294967295]
  by simp

text \<open>
  C2. A primitive with no power generation, a power consumption \<open>c > 0\<close>, a visibility
  score \<open>v > 0\<close> and exactly the capabilities AESTHETIC, LIGHTING and WAYFINDING (in
  any order), ticked alone, yields power_delta 0, power_consumed \<open>c\<close>,
  light_level_delta 1, morale_delta 0.1 and visibility_score_delta \<open>v\<close>, whatever the
  sector state and the seed. (\<open>fl (1 / 10)\<close> is the number the literal \<open>0.1\<close> denotes.)
\<close>

theorem tick_neon:
  assumes caps: "distinct (capabilities p)" "set (capabilities p) = {''AESTHETIC'', ''LIGHTING'', ''WAYFINDING''}"
    and g: "power_generation (sim p) = Fin 0"
    and c: "power_consumption (sim p) = c" "fgt c (Fin 0)" "is_double c"
    and v: "visibility_score (sim p) = v" "fgt v (Fin 0)" "is_double v"
  shows "tick [p] sectorState seed =
    Inr \<lparr>power_delta = Fin 0, power_consumed = c, light_level_delta = Fin 1,
         morale_delta = Fin (fl (1 / 10)), visibility_score_delta = v\<rparr>"
proof -
  have "capabilities p \<in> {[''AESTHETIC'', ''LIGHTING'', ''WAYFINDING''], [''AESTHETIC'', ''WAYFINDING'', ''LIGHTING''],
     [''LIGHTING'', ''AESTHETIC'', ''WAYFINDING''], [''LIGHTING'', ''WAYFINDING'', ''AESTHETIC''],
     [''WAYFINDING'', ''AESTHETIC'', ''LIGHTING''], [''WAYFINDING'', ''LIGHTING'', ''AESTHETIC'']}"
    using perm3[OF caps] by simp
  then show ?thesis
    using c v fadd_zero_left[OF is_double_one] fadd_zero_left[OF is_double_tenth]
      fadd_zero_left[of c] fadd_zero_left[of v]
    by (auto simp: tick_def zero_output_def CAP_simps merge_result_def add_key_def)
qed

theorem tick_neon_witness:
  "distinct (capabilities example_strip) \<and>
   set (capabilities example_strip) = {''AESTHETIC'', ''LIGHTING'', ''WAYFINDING''} \<and>
   power_generation (sim example_strip) = Fin 0 \<and>
   power_consumption (sim example_strip) = Fin 2 \<and> fgt (Fin 2) (Fin 0) \<and> is_double (Fin 2) \<and>
   visibility_score (sim example_strip) = Fin 5 \<and> fgt (Fin 5) (Fin 0) \<and> is_double (Fin 5) \<and>
   tick [example_strip] () 7 =
    Inr \<lparr>power_delta = Fin 0, power_consumed = Fin 2, light_level_delta = Fin 1,
         morale_delta = Fin (fl (1 / 10)), visibility_score_delta = Fin 5\<rparr>"
proof -
  have h: "distinct (capabilities example_strip)"
    "set (capabilities example_strip) = {''AESTHETIC'', ''LIGHTING'', ''WAYFINDING''}"
    "power_generation (sim example_strip) = Fin 0"
    "power_consumption (sim example_strip) = Fin 2" "fgt (Fin 2) (Fin 0)"
    "visibility_score (sim example_strip) = Fin 5" "fgt (Fin 5) (Fin 0)"
    by (auto simp: example_strip_def fgt_def)
  show ?thesis
    using h is_double_two is_double_five
      tick_neon[OF h(1) h(2) h(3) h(4) h(5) is_double_two h(6) h(7) is_double_five, of "()" 7]
    by simp
qed

text \<open>
  C3. A capability name outside the registry is meant to abort the tick with the
  "Unknown capability" error. For a name that \<open>Object.prototype\<close> defines, such as
  \<open>toString\<close>, the lookup finds the inherited member, the guard \<open>if (!cap)\<close> passes and
  the call of its missing \<open>tick\<close> raises a TypeError instead.
\<close>

theorem tick_inherited_name_type_error:
  "tick [example_strip\<lparr>capabilities := [''AESTHETIC'', ''toString'']\<rparr>] () 0 = Inl (TypeError ''toString'')"
  by (simp add: tick_def example_strip_def zero_output_def CAP_simps merge_result_def add_key_def)

text \<open>
  Whatever the unknown name, the tick does abort: a list in which some primitive
  declares a name that is not a key of the registry never yields an output.
\<close>

lemma run_caps_unknown:
  "\<exists>n \<in> set cs. \<forall>c. CAPABILITIES n \<noteq> Own c \<Longrightarrow> \<exists>e. run_caps p st cs acc = Inl e"
proof (induction cs arbitrary: acc)
  case Nil
  then show ?case by simp
next
  case (Cons n cs)
  show ?case
  proof (cases "CAPABILITIES n")
    case (Own c)
    with Cons.prems have "\<exists>n \<in> set cs. \<forall>c. CAPABILITIES n \<noteq> Own c" by auto
    from Cons.IH[OF this] Own show ?thesis by (simp split: prod.splits)
  qed simp_all
qed

lemma tick_loop_unknown:
  "\<exists>p \<in> set ps. \<exists>n \<in> set (capabilities p). \<forall>c. CAPABILITIES n \<noteq> Own c \<Longrightarrow>
   \<exists>e. tick_loop ps st acc = Inl e"
proof (induction ps arbitrary: acc)
  case Nil
  then show ?case by simp
next
  case (Cons p ps)
  show ?case
  proof (cases "\<exists>n \<in> set (capabilities p). \<forall>c. CAPABILITIES n \<noteq> Own c")
    case True
    from run_caps_unknown[OF this] show ?thesis
      by (metis (no_types, lifting) old.sum.simps(5) tick_loop.simps(2))
  next
    case False
    with Cons.prems have "\<exists>p \<in> set ps. \<exists>n \<in> set (capabilities p). \<forall>c. CAPABILITIES n \<noteq> Own c"
      by auto
    from Cons.IH[OF this] show ?thesis by (auto split: sum.splits)
  qed
qed

lemma tick_unknown_aborts:
  "\<exists>p \<in> set ps. \<exists>n \<in> set (capabilities p). n \<notin> fst ` set registry \<Longrightarrow>
   \<exists>e. tick ps st seed = Inl e"
proof -
  assume "\<exists>p \<in> set ps. \<exists>n \<in> set (capabilities p). n \<notin> fst ` set registry"
  then have "\<exists>p \<in> set ps. \<exists>n \<in> set (capabilities p). \<forall>c. CAPABILITIES n \<noteq> Own c"
    by (auto simp: CAPABILITIES_def map_of_eq_None_iff[symmetric] split: option.splits
        simp del: map_of_eq_None_iff) 
  from tick_loop_unknown[OF this, of st "(zero_output, createRng seed)"]
  obtain e where "tick_loop ps st (zero_output, createRng seed) = Inl e" by blast
  then show ?thesis by (simp add: tick_def)
qed


section \<open>Structure controller: lifecycle and the terminal state\<close>

lemma map_of_map_set: "map_of (map_set k v m) k' = (if k' = k then Some v else map_of m k')"
  by (induction m) auto

lemma map_of_structures_tick:
  "map_of (structures_tick S) k = map_option tick_facility (map_of S k)"
  by (simp add: structures_tick_def map_of_map)

lemma map_of_funpow_tick:
  "map_of ((structures_tick ^^ j) S) k = map_option (tick_facility ^^ j) (map_of S k)"
proof (induction j)
  case 0
  show ?case by (cases "map_of S k") simp_all
next
  case (Suc j)
  show ?case by (cases "map_of S k") (simp_all add: map_of_structures_tick Suc)
qed

text \<open>One tick of a facility under construction whose countdown is an integer.\<close>

lemma countdown_step:
  assumes "1 \<le> r" "r \<le> 2 ^ 53"
  shows "fmax (Fin 0) (fsub (Fin (of_int r)) (Fin 1)) = Fin (of_int (r - 1))"
proof -
  have "\<bar>r - 1\<bar> < 2 ^ 53" using assms by simp
  from fsub_int[OF this] have "fsub (Fin (of_int r)) (Fin 1) = Fin (of_int (r - 1))" by simp
  then show ?thesis using assms(1) by (simp del: of_int_diff)
qed

lemma tick_facility_busy:
  assumes "state f = BUILDING \<or> state f = UPGRADING"
    and "ticksRemaining f = Fin (of_int r)" "1 \<le> r" "r \<le> 2 ^ 53"
  shows "tick_facility f =
     (if 1 < r then f\<lparr>ticksRemaining := Fin (of_int (r - 1))\<rparr>
      else f\<lparr>ticksRemaining := Fin 0,
             tier := (if state f = UPGRADING then fadd (tier f) (Fin 1) else tier f),
             state := OPERATIONAL\<rparr>)"
proof -
  have z: "feq (Fin (of_int (r - 1))) (Fin 0) = (r = 1)" by auto
  have o: "r = 1 \<Longrightarrow> Fin (of_int (r - 1)) = Fin 0" by simp
  show ?thesis
    using assms(1,3) o
    by (auto simp: tick_facility_def Let_def assms(2) countdown_step[OF assms(3,4)] z
          simp del: of_int_diff fadd.simps)
qed

lemma tick_facility_countdown:
  assumes busy: "state f = BUILDING \<or> state f = UPGRADING"
    and r: "ticksRemaining f = Fin (of_int r)" "1 \<le> r" "r \<le> 2 ^ 53"
    and j: "int j \<le> r"
  shows "(tick_facility ^^ j) f =
     (if int j < r then f\<lparr>ticksRemaining := Fin (of_int (r - int j))\<rparr>
      else f\<lparr>ticksRemaining := Fin 0,
             tier := (if state f = UPGRADING then fadd (tier f) (Fin 1) else tier f),
             state := OPERATIONAL\<rparr>)"
  using j
proof (induction j)
  case 0
  then show ?case using r by simp
next
  case (Suc j)
  then have lt: "int j < r" by simp
  with Suc have IH: "(tick_facility ^^ j) f = f\<lparr>ticksRemaining := Fin (of_int (r - int j))\<rparr>"
    by simp
  let ?g = "f\<lparr>ticksRemaining := Fin (of_int (r - int j))\<rparr>"
  have step: "(tick_facility ^^ Suc j) f = tick_facility ?g"
    using IH by simp
  have b: "state ?g = BUILDING \<or> state ?g = UPGRADING" using busy by simp
  have t: "ticksRemaining ?g = Fin (of_int (r - int j))" by simp
  have r1: "1 \<le> r - int j" "r - int j \<le> 2 ^ 53" using lt r(3) by simp_all
  show ?case
    unfolding step tick_facility_busy[OF b t r1]
    by (auto simp: algebra_simps simp del: fadd.simps)
qed

lemma getState_map_of: "getState i S = Inr f \<longleftrightarrow> map_of S i = Some f"
  by (auto simp: getState_def get_structure_def split: option.splits)

lemma lifecycle_build:
  fixes n :: int and t :: number and S :: structure_controller and ident :: string
  assumes fresh: "map_of S ident = None" and n: "1 \<le> n" "n \<le> 2 ^ 53" and j: "int j \<le> n"
  defines "S1 \<equiv> snd (register ident t S)"
  defines "S2 \<equiv> snd (startBuild ident (Fin (of_int n)) S1)"
  shows "fst (register ident t S) = Inr ()"
    and "getState ident S1 = Inr \<lparr>state = PLANNED, tier = t, ticksRemaining = Fin 0\<rparr>"
    and "fst (startBuild ident (Fin (of_int n)) S1) = Inr ()"
    and "getState ident ((structures_tick ^^ j) S2) =
           Inr \<lparr>state = (if int j < n then BUILDING else OPERATIONAL), tier = t,
                ticksRemaining = Fin (of_int (n - int j))\<rparr>"
proof -
  show "fst (register ident t S) = Inr ()" using fresh by (simp add: register_def)
  have S1: "map_of S1 ident = Some \<lparr>state = PLANNED, tier = t, ticksRemaining = Fin 0\<rparr>"
    using fresh by (simp add: S1_def register_def map_of_map_set)
  then show "getState ident S1 = Inr \<lparr>state = PLANNED, tier = t, ticksRemaining = Fin 0\<rparr>"
    by (simp add: getState_map_of)
  show "fst (startBuild ident (Fin (of_int n)) S1) = Inr ()"
    using S1 by (simp add: startBuild_def get_structure_def)
  have S2: "map_of S2 ident = Some \<lparr>state = BUILDING, tier = t, ticksRemaining = Fin (of_int n)\<rparr>"
    using S1 by (simp add: S2_def startBuild_def get_structure_def map_of_map_set)
  have c: "(tick_facility ^^ j) \<lparr>state = BUILDING, tier = t, ticksRemaining = Fin (of_int n)\<rparr> =
      \<lparr>state = (if int j < n then BUILDING else OPERATIONAL), tier = t,
       ticksRemaining = Fin (of_int (n - int j))\<rparr>"
    using tick_facility_countdown[of "\<lparr>state = BUILDING, tier = t, ticksRemaining = Fin (of_int n)\<rparr>" n j]
      n j by (auto simp del: of_int_diff)
  show "getState ident ((structures_tick ^^ j) S2) =
           Inr \<lparr>state = (if int j < n then BUILDING else OPERATIONAL), tier = t,
                ticksRemaining = Fin (of_int (n - int j))\<rparr>"
    by (simp only: getState_map_of map_of_funpow_tick S2 option.map c)
qed

lemma lifecycle_upgrade:
  fixes m t :: int and S :: structure_controller and ident :: string
  assumes f: "getState ident S = Inr f" and op: "state f = OPERATIONAL"
    and t: "tier f = Fin (of_int t)" "\<bar>t + 1\<bar> < 2 ^ 53"
    and m: "1 \<le> m" "m \<le> 2 ^ 53" and j: "int j \<le> m"
  defines "S1 \<equiv> snd (startUpgrade ident (Fin (of_int m)) S)"
  shows "fst (startUpgrade ident (Fin (of_int m)) S) = Inr ()"
    and "getState ident ((structures_tick ^^ j) S1) =
           Inr \<lparr>state = (if int j < m then UPGRADING else OPERATIONAL),
                tier = Fin (of_int (if int j < m then t else t + 1)),
                ticksRemaining = Fin (of_int (m - int j))\<rparr>"
proof -
  have mo: "map_of S ident = Some f" using f by (simp add: getState_map_of)
  show "fst (startUpgrade ident (Fin (of_int m)) S) = Inr ()"
    using mo op by (simp add: startUpgrade_def get_structure_def)
  let ?g = "f\<lparr>state := UPGRADING, ticksRemaining := Fin (of_int m)\<rparr>"
  have S1: "map_of S1 ident = Some ?g"
    using mo op by (simp add: S1_def startUpgrade_def get_structure_def map_of_map_set)
  have up: "fadd (Fin (of_int t)) (Fin 1) = Fin (of_int (t + 1))"
    using fadd_int[OF t(2)] by simp
  have c: "(tick_facility ^^ j) ?g =
      \<lparr>state = (if int j < m then UPGRADING else OPERATIONAL),
       tier = Fin (of_int (if int j < m then t else t + 1)),
       ticksRemaining = Fin (of_int (m - int j))\<rparr>"
    using tick_facility_countdown[of ?g m j] m j t(1) up
    by (auto simp del: of_int_diff of_int_add fadd.simps)
  show "getState ident ((structures_tick ^^ j) S1) =
           Inr \<lparr>state = (if int j < m then UPGRADING else OPERATIONAL),
                tier = Fin (of_int (if int j < m then t else t + 1)),
                ticksRemaining = Fin (of_int (m - int j))\<rparr>"
    by (simp only: getState_map_of map_of_funpow_tick S1 option.map c)
qed


lemma big_counters:
  "fsub (Fin 18014398509481984) (Fin 1) = Fin 18014398509481984"
  "fadd (Fin 9007199254740992) (Fin 1) = Fin 9007199254740992"
  by code_simp+

text \<open>
  C6, as stated, fails: \<open>ticksRemaining\<close> and \<open>tier\<close> are binary64 numbers, and
  \<open>ticksRemaining - 1\<close> and \<open>tier += 1\<close> round. A build of \<open>2^54\<close> ticks is still BUILDING
  with \<open>2^54\<close> ticks remaining after a tick (the countdown does not decrease), and an
  upgrade of an OPERATIONAL facility at tier \<open>2^53\<close> ends at tier \<open>2^53\<close>, not \<open>2^53 + 1\<close>.
\<close>

theorem lifecycle_beyond_2_53:
  "getState ''silo-1''
     (structures_tick (snd (startBuild ''silo-1'' (Fin 18014398509481984)
        (snd (register ''silo-1'' (Fin 1) []))))) =
     Inr \<lparr>state = BUILDING, tier = Fin 1, ticksRemaining = Fin 18014398509481984\<rparr> \<and>
   getState ''silo-1''
     (structures_tick (snd (startUpgrade ''silo-1'' (Fin 1)
        [(''silo-1'', \<lparr>state = OPERATIONAL, tier = Fin 9007199254740992, ticksRemaining = Fin 0\<rparr>)]))) =
     Inr \<lparr>state = OPERATIONAL, tier = Fin 9007199254740992, ticksRemaining = Fin 0\<rparr> \<and>
   (18014398509481984 :: rat) = 2 ^ 54 \<and> (9007199254740992 :: rat) = 2 ^ 53"
proof -
  have a: "fmax (Fin 0) (Fin 18014398509481984) = Fin 18014398509481984"
    and b: "fsub (Fin 1) (Fin 1) = Fin 0"
    by (simp_all add: fsub_def to_number_def fl_def overflow_threshold_def)
  show ?thesis
    by (simp add: getState_def get_structure_def register_def startBuild_def startUpgrade_def
          structures_tick_def tick_facility_def Let_def big_counters a b
          del: fadd.simps)
qed

text \<open>
  C6, amended. For a fresh id and an integer \<open>n\<close> with \<open>1 \<le> n \<le> 2^53\<close>: \<open>register\<close>
  succeeds and leaves the facility PLANNED, \<open>startBuild(id, n)\<close> succeeds, and after
  \<open>j \<le> n\<close> ticks the facility has \<open>n - j\<close> ticks remaining, is BUILDING while \<open>j < n\<close>
  and OPERATIONAL at \<open>j = n\<close>, its tier unchanged. For an OPERATIONAL facility whose tier
  is an integer \<open>t\<close> with \<open>|t + 1| < 2^53\<close> and an integer \<open>m\<close> with \<open>1 \<le> m \<le> 2^53\<close>:
  \<open>startUpgrade(id, m)\<close> succeeds, and after \<open>k \<le> m\<close> ticks the facility has \<open>m - k\<close>
  ticks remaining, is UPGRADING at tier \<open>t\<close> while \<open>k < m\<close> and OPERATIONAL at tier
  \<open>t + 1\<close> at \<open>k = m\<close>.
\<close>

theorem structure_lifecycle:
  fixes n m t :: int
  shows
  "(map_of S ident = None \<and> 1 \<le> n \<and> n \<le> 2 ^ 53 \<and> int j \<le> n \<longrightarrow>
      fst (register ident t0 S) = Inr () \<and>
      getState ident (snd (register ident t0 S)) =
        Inr \<lparr>state = PLANNED, tier = t0, ticksRemaining = Fin 0\<rparr> \<and>
      fst (startBuild ident (Fin (of_int n)) (snd (register ident t0 S))) = Inr () \<and>
      getState ident ((structures_tick ^^ j)
          (snd (startBuild ident (Fin (of_int n)) (snd (register ident t0 S))))) =
        Inr \<lparr>state = (if int j < n then BUILDING else OPERATIONAL), tier = t0,
             ticksRemaining = Fin (of_int (n - int j))\<rparr>) \<and>
   (getState ident' S' = Inr f \<and> state f = OPERATIONAL \<and> tier f = Fin (of_int t) \<and>
    \<bar>t + 1\<bar> < 2 ^ 53 \<and> 1 \<le> m \<and> m \<le> 2 ^ 53 \<and> int k \<le> m \<longrightarrow>
      fst (startUpgrade ident' (Fin (of_int m)) S') = Inr () \<and>
      getState ident' ((structures_tick ^^ k) (snd (startUpgrade ident' (Fin (of_int m)) S'))) =
        Inr \<lparr>state = (if int k < m then UPGRADING else OPERATIONAL),
             tier = Fin (of_int (if int k < m then t else t + 1)),
             ticksRemaining = Fin (of_int (m - int k))\<rparr>)"
  using lifecycle_build[of S ident n j t0] lifecycle_upgrade[of ident' S' f t m k]
  by blast

theorem structure_lifecycle_witness:
  "map_of ([] :: structure_controller) ''refinery-primary'' = None \<and>
   (1::int) \<le> 3 \<and> (3::int) \<le> 2 ^ 53 \<and> int 3 \<le> 3 \<and>
   fst (register ''refinery-primary'' (Fin 2) []) = Inr () \<and>
   getState ''refinery-primary'' (snd (register ''refinery-primary'' (Fin 2) [])) =
     Inr \<lparr>state = PLANNED, tier = Fin 2, ticksRemaining = Fin 0\<rparr> \<and>
   fst (startBuild ''refinery-primary'' (Fin 3) (snd (register ''refinery-primary'' (Fin 2) []))) = Inr () \<and>
   getState ''refinery-primary''
     ((structures_tick ^^ 3)
        (snd (startBuild ''refinery-primary'' (Fin 3) (snd (register ''refinery-primary'' (Fin 2) []))))) =
     Inr \<lparr>state = OPERATIONAL, tier = Fin 2, ticksRemaining = Fin 0\<rparr> \<and>
   getState ''refinery-primary''
     [(''refinery-primary'', \<lparr>state = OPERATIONAL, tier = Fin 2, ticksRemaining = Fin 0\<rparr>)] =
     Inr \<lparr>state = OPERATIONAL, tier = Fin 2, ticksRemaining = Fin 0\<rparr> \<and>
   state \<lparr>state = OPERATIONAL, tier = Fin 2, ticksRemaining = Fin 0\<rparr> = OPERATIONAL \<and>
   tier \<lparr>state = OPERATIONAL, tier = Fin 2, ticksRemaining = Fin 0\<rparr> = Fin (of_int 2) \<and>
   \<bar>(2::int) + 1\<bar> < 2 ^ 53 \<and> (1::int) \<le> 2 \<and> (2::int) \<le> 2 ^ 53 \<and> int 2 \<le> 2 \<and>
   fst (startUpgrade ''refinery-primary'' (Fin 2)
     [(''refinery-primary'', \<lparr>state = OPERATIONAL, tier = Fin 2, ticksRemaining = Fin 0\<rparr>)]) = Inr () \<and>
   getState ''refinery-primary''
     ((structures_tick ^^ 2) (snd (startUpgrade ''refinery-primary'' (Fin 2)
        [(''refinery-primary'', \<lparr>state = OPERATIONAL, tier = Fin 2, ticksRemaining = Fin 0\<rparr>)]))) =
     Inr \<lparr>state = OPERATIONAL, tier = Fin 3, ticksRemaining = Fin 0\<rparr>"
proof -
  have g: "getState ''refinery-primary''
     [(''refinery-primary'', \<lparr>state = OPERATIONAL, tier = Fin 2, ticksRemaining = Fin 0\<rparr>)] =
     Inr \<lparr>state = OPERATIONAL, tier = Fin 2, ticksRemaining = Fin 0\<rparr>"
    by (simp add: getState_def get_structure_def)
  show ?thesis
    using g structure_lifecycle[of "[]" "''refinery-primary''" 3 3 "Fin 2" "''refinery-primary''"
      "[(''refinery-primary'', \<lparr>state = OPERATIONAL, tier = Fin 2, ticksRemaining = Fin 0\<rparr>)]"
      "\<lparr>state = OPERATIONAL, tier = Fin 2, ticksRemaining = Fin 0\<rparr>" 2 2 2]
    by simp
qed

lemma decommissioned_step:
  assumes "map_of S i = Some f" "state f = DECOMMISSIONED"
  shows "\<exists>f'. map_of (snd (structure_exec c S)) i = Some f' \<and> state f' = DECOMMISSIONED"
proof (cases c)
  case (Register j t)
  then show ?thesis using assms by (auto simp: register_def map_of_map_set)
next
  case (StartBuild j n)
  then show ?thesis using assms
    by (auto simp: startBuild_def get_structure_def map_of_map_set split: option.splits)
next
  case (StartUpgrade j n)
  then show ?thesis using assms
    by (auto simp: startUpgrade_def get_structure_def map_of_map_set split: option.splits)
next
  case (Decommission j)
  then show ?thesis using assms
    by (auto simp: decommission_def get_structure_def map_of_map_set split: option.splits)
next
  case Tick
  then show ?thesis using assms
    by (simp add: map_of_structures_tick tick_facility_def)
qed

lemma decommissioned_run:
  assumes "map_of S i = Some f" "state f = DECOMMISSIONED"
  shows "\<exists>f'. map_of (structure_run calls S) i = Some f' \<and> state f' = DECOMMISSIONED"
  using assms
proof (induction calls arbitrary: S f)
  case Nil
  then show ?case by (simp add: structure_run_def)
next
  case (Cons c calls)
  from decommissioned_step[OF Cons.prems, of c]
  obtain f' where "map_of (snd (structure_exec c S)) i = Some f'" "state f' = DECOMMISSIONED"
    by blast
  from Cons.IH[OF this] show ?case by (simp add: structure_run_def)
qed

text \<open>
  C7. \<open>decommission\<close> succeeds on every registered facility, whatever its state, and
  leaves it DECOMMISSIONED with no ticks remaining. A DECOMMISSIONED facility stays
  DECOMMISSIONED through every sequence of \<open>register\<close>, \<open>startBuild\<close>, \<open>startUpgrade\<close>,
  \<open>decommission\<close> and \<open>tick\<close> calls, and \<open>startBuild\<close> and \<open>startUpgrade\<close> on it throw the
  invalid-transition error.
\<close>

theorem decommission_terminal:
  "(getState ident S = Inr f \<longrightarrow>
      fst (decommission ident S) = Inr () \<and>
      getState ident (snd (decommission ident S)) =
        Inr (f\<lparr>state := DECOMMISSIONED, ticksRemaining := Fin 0\<rparr>)) \<and>
   (getState ident' S' = Inr f' \<and> state f' = DECOMMISSIONED \<longrightarrow>
      (\<exists>f''. getState ident' (structure_run calls S') = Inr f'' \<and> state f'' = DECOMMISSIONED) \<and>
      fst (startBuild ident' n S') = Inl (InvalidTransitionError ident') \<and>
      fst (startUpgrade ident' n S') = Inl (InvalidTransitionError ident'))"
proof (intro conjI impI)
  assume "getState ident S = Inr f"
  then have m: "map_of S ident = Some f" by (simp add: getState_map_of)
  show "fst (decommission ident S) = Inr ()"
    using m by (simp add: decommission_def get_structure_def)
  show "getState ident (snd (decommission ident S)) =
        Inr (f\<lparr>state := DECOMMISSIONED, ticksRemaining := Fin 0\<rparr>)"
    using m by (simp add: getState_map_of decommission_def get_structure_def map_of_map_set)
next
  assume a: "getState ident' S' = Inr f' \<and> state f' = DECOMMISSIONED"
  then have m: "map_of S' ident' = Some f'" and d: "state f' = DECOMMISSIONED"
    by (simp_all add: getState_map_of)
  from decommissioned_run[OF m d, of calls]
  show "\<exists>f''. getState ident' (structure_run calls S') = Inr f'' \<and> state f'' = DECOMMISSIONED"
    by (simp add: getState_map_of)
  show "fst (startBuild ident' n S') = Inl (InvalidTransitionError ident')"
    using m d by (simp add: startBuild_def get_structure_def)
  show "fst (startUpgrade ident' n S') = Inl (InvalidTransitionError ident')"
    using m d by (simp add: startUpgrade_def get_structure_def)
qed

theorem decommission_terminal_witness:
  "getState ''refinery-primary''
     [(''refinery-primary'', \<lparr>state = UPGRADING, tier = Fin 2, ticksRemaining = Fin 2\<rparr>)]
     = Inr \<lparr>state = UPGRADING, tier = Fin 2, ticksRemaining = Fin 2\<rparr> \<and>
   fst (decommission ''refinery-primary''
     [(''refinery-primary'', \<lparr>state = UPGRADING, tier = Fin 2, ticksRemaining = Fin 2\<rparr>)]) = Inr () \<and>
   getState ''refinery-primary'' decommissioned_example =
     Inr \<lparr>state = DECOMMISSIONED, tier = Fin 2, ticksRemaining = Fin 0\<rparr> \<and>
   state \<lparr>state = DECOMMISSIONED, tier = Fin 2, ticksRemaining = Fin 0\<rparr> = DECOMMISSIONED \<and>
   (\<exists>f''. getState ''refinery-primary''
       (structure_run [Tick, StartBuild ''refinery-primary'' (Fin 1), Tick,
                       StartUpgrade ''refinery-primary'' (Fin 1),
                       Decommission ''refinery-primary'', Register ''refinery-primary'' (Fin 1), Tick]
          decommissioned_example) = Inr f'' \<and> state f'' = DECOMMISSIONED) \<and>
   fst (startBuild ''refinery-primary'' (Fin 1) decommissioned_example) =
     Inl (InvalidTransitionError ''refinery-primary'') \<and>
   fst (startUpgrade ''refinery-primary'' (Fin 1) decommissioned_example) =
     Inl (InvalidTransitionError ''refinery-primary'')"
proof -
  have e: "getState ''refinery-primary'' decommissioned_example =
     Inr \<lparr>state = DECOMMISSIONED, tier = Fin 2, ticksRemaining = Fin 0\<rparr>"
    by (simp add: decommissioned_example_def decommission_def getState_def get_structure_def)
  show ?thesis
    using e
      decommission_terminal[of "''refinery-primary''"
        "[(''refinery-primary'', \<lparr>state = UPGRADING, tier = Fin 2, ticksRemaining = Fin 2\<rparr>)]"
        "\<lparr>state = UPGRADING, tier = Fin 2, ticksRemaining = Fin 2\<rparr>"
        "''refinery-primary''" decommissioned_example
        "\<lparr>state = DECOMMISSIONED, tier = Fin 2, ticksRemaining = Fin 0\<rparr>"
        "[Tick, StartBuild ''refinery-primary'' (Fin 1), Tick,
          StartUpgrade ''refinery-primary'' (Fin 1),
          Decommission ''refinery-primary'', Register ''refinery-primary'' (Fin 1), Tick]" "Fin 1"]
    by (simp add: getState_def get_structure_def)
qed


section \<open>Failure atomicity of the two controllers\<close>

lemma structure_exec_atomic:
  "fst (structure_exec c S) = Inl e \<Longrightarrow> snd (structure_exec c S) = S"
  by (cases c)
     (auto simp: register_def startBuild_def startUpgrade_def decommission_def
           split: if_splits sum.splits)

lemma spawnDrone_atomic: "fst (spawnDrone W) = Inl e \<Longrightarrow> snd (spawnDrone W) = W"
  by (cases "maxDrones (config W) \<le> int (length (drones W))") (simp_all add: spawnDrone_def Let_def)

lemma dispatch_atomic:
  assumes "fst (dispatch d r W) = Inl e"
  shows "snd (dispatch d r W) = W"
proof (cases "getDrone d W")
  case (Inl e')
  then show ?thesis by (simp add: dispatch_def)
next
  case (Inr dr)
  show ?thesis
  proof (cases "find (\<lambda>x. route_id x = r) (patrolRoutes (config W))")
    case None
    with Inr show ?thesis by (simp add: dispatch_def)
  next
    case (Some rt)
    with Inr assms show ?thesis
      by (cases "drone_state dr = Idle") (simp_all add: dispatch_def)
  qed
qed

lemma collect_atomic:
  assumes "fst (collect d a W) = Inl e"
  shows "snd (collect d a W) = W"
proof (cases "getDrone d W")
  case (Inl e')
  then show ?thesis by (simp add: collect_def)
next
  case (Inr dr)
  with assms show ?thesis
    by (cases "drone_state dr = Collecting") (simp_all add: collect_def Let_def)
qed

lemma returnToHub_atomic:
  assumes "fst (returnToHub d W) = Inl e"
  shows "snd (returnToHub d W) = W"
proof (cases "getDrone d W")
  case (Inl e')
  then show ?thesis by (simp add: returnToHub_def)
next
  case (Inr dr)
  with assms show ?thesis
    by (cases "drone_state dr") (simp_all add: returnToHub_def)
qed

lemma swarm_exec_atomic:
  "fst (swarm_exec c W) = Inl e \<Longrightarrow> snd (swarm_exec c W) = W"
proof (cases c)
  case SpawnDrone
  assume "fst (swarm_exec c W) = Inl e"
  then have "fst (spawnDrone W) = Inl e"
    unfolding SpawnDrone by (cases "spawnDrone W"; cases "fst (spawnDrone W)") auto
  from spawnDrone_atomic[OF this] show ?thesis
    unfolding SpawnDrone by (cases "spawnDrone W") auto
next
  case (Dispatch d r)
  assume "fst (swarm_exec c W) = Inl e"
  then have "fst (dispatch d r W) = Inl e"
    unfolding Dispatch by (cases "dispatch d r W"; cases "fst (dispatch d r W)") auto
  from dispatch_atomic[OF this] show ?thesis
    unfolding Dispatch by (cases "dispatch d r W") auto
next
  case (Collect d a)
  assume "fst (swarm_exec c W) = Inl e"
  then have "fst (collect d a W) = Inl e"
    unfolding Collect by (cases "collect d a W"; cases "fst (collect d a W)") auto
  from collect_atomic[OF this] show ?thesis
    unfolding Collect by (cases "collect d a W") auto
next
  case (ReturnToHub d)
  assume "fst (swarm_exec c W) = Inl e"
  then have "fst (returnToHub d W) = Inl e"
    unfolding ReturnToHub by (cases "returnToHub d W"; cases "fst (returnToHub d W)") auto
  from returnToHub_atomic[OF this] show ?thesis
    unfolding ReturnToHub by (cases "returnToHub d W") auto
qed


text \<open>
  C10. A call of a method of the structure controller or of the swarm controller that
  throws leaves the controller exactly as it was before the call. (The tick engine keeps
  no state between calls: its accumulator is local to the call and is dropped by a throw.)
\<close>

theorem failure_atomicity:
  "(fst (structure_exec c S) = Inl e \<longrightarrow> snd (structure_exec c S) = S) \<and>
   (fst (swarm_exec c' W) = Inl e' \<longrightarrow> snd (swarm_exec c' W) = W)"
  using structure_exec_atomic[of c S e] swarm_exec_atomic[of c' W e'] by blast

lemma string_of_nat_0: "string_of_nat 0 = ''0''"
  by code_simp

lemma spawn_example:
  "spawnDrone (new_swarm example_config) =
     (Inr ''drone-0'',
      \<lparr>config = example_config,
       drones = [(''drone-0'', \<lparr>cargo = Fin 0, position = Some origin, drone_state = Idle, routeId = None\<rparr>)],
       nextDroneId = 1\<rparr>)"
  by (simp add: spawnDrone_def new_swarm_def example_config_def string_of_nat_0 Let_def)

theorem failure_atomicity_witness:
  "fst (structure_exec (Register ''refinery-primary'' (Fin 1)) decommissioned_example) =
     Inl (DuplicateEntityError ''refinery-primary'') \<and>
   snd (structure_exec (Register ''refinery-primary'' (Fin 1)) decommissioned_example) =
     decommissioned_example \<and>
   fst (swarm_exec (Collect ''drone-0'' (Fin 10)) (snd (spawnDrone (new_swarm example_config)))) =
     Inl (InvalidStateError ''drone-0'') \<and>
   snd (swarm_exec (Collect ''drone-0'' (Fin 10)) (snd (spawnDrone (new_swarm example_config)))) =
     snd (spawnDrone (new_swarm example_config))"
proof -
  have a: "fst (structure_exec (Register ''refinery-primary'' (Fin 1)) decommissioned_example) =
     Inl (DuplicateEntityError ''refinery-primary'')"
    by (simp add: register_def decommissioned_example_def decommission_def get_structure_def)
  have b: "fst (swarm_exec (Collect ''drone-0'' (Fin 10)) (snd (spawnDrone (new_swarm example_config)))) =
     Inl (InvalidStateError ''drone-0'')"
    by (simp add: spawn_example collect_def getDrone_def)
  show ?thesis
    using a b
      failure_atomicity[of "Register ''refinery-primary'' (Fin 1)" decommissioned_example
        "DuplicateEntityError ''refinery-primary''" "Collect ''drone-0'' (Fin 10)"
        "snd (spawnDrone (new_swarm example_config))" "InvalidStateError ''drone-0''"]
    by simp
qed

section \<open>Swarm controller: collecting\<close>

lemma dispatched_example_eq:
  "dispatched_example =
     \<lparr>config = example_config,
      drones = [(''drone-0'', \<lparr>cargo = Fin 0,
                  position = Some \<lparr>pos_x = Fin (- 50), pos_y = Fin 0, pos_z = Fin 0\<rparr>,
                  drone_state = Collecting, routeId = Some ''route-intake-sweep''\<rparr>)],
      nextDroneId = 1\<rparr>"
  unfolding dispatched_example_def spawn_example
  by (simp add: dispatch_def getDrone_def example_config_def)

lemma ratio_facts:
  "fge (fdiv (Fin 20) (Fin 50)) (fsub (Fin 1) (Fin (fl (1 / 10)))) = False"
  "fge (fdiv (Fin 50) (Fin 50)) (fsub (Fin 1) (Fin (fl (1 / 10)))) = True"
  "fge (fdiv (Fin 44) (Fin 50)) (fsub (Fin 1) (Fin (fl (1 / 10)))) = False"
  "fge (fdiv (Fin 45) (Fin 50)) (fsub (Fin 1) (Fin (fl (1 / 10)))) = True"
  by code_simp+

lemma cargo_facts:
  "fsub (Fin 50) (Fin 0) = Fin 50"
  "fadd (Fin 0) (Fin 20) = Fin 20"
  "fsub (Fin 50) (Fin 20) = Fin 30"
  "fadd (Fin 20) (Fin 30) = Fin 50"
  "fadd (Fin 0) (Fin (- 5)) = Fin (- 5)"
  by code_simp+


lemma getDrone_map_set:
  "getDrone k (W\<lparr>drones := map_set k d (drones W)\<rparr>) = Inr d"
  by (simp add: getDrone_def map_of_map_set)

lemma collect_20:
  "collect ''drone-0'' (Fin 20) dispatched_example =
     (Inr (Fin 20),
      \<lparr>config = example_config,
       drones = [(''drone-0'', \<lparr>cargo = Fin 20,
                  position = Some \<lparr>pos_x = Fin (- 50), pos_y = Fin 0, pos_z = Fin 0\<rparr>,
                  drone_state = Collecting, routeId = Some ''route-intake-sweep''\<rparr>)],
       nextDroneId = 1\<rparr>)"
  unfolding dispatched_example_eq
  by (simp add: collect_def getDrone_def Let_def example_config_def cargo_facts ratio_facts
        del: fadd.simps fdiv.simps)

lemma collect_30:
  "collect ''drone-0'' (Fin 30) (snd (collect ''drone-0'' (Fin 20) dispatched_example)) =
     (Inr (Fin 30),
      \<lparr>config = example_config,
       drones = [(''drone-0'', \<lparr>cargo = Fin 50,
                  position = Some \<lparr>pos_x = Fin (- 50), pos_y = Fin 0, pos_z = Fin 0\<rparr>,
                  drone_state = Returning, routeId = Some ''route-intake-sweep''\<rparr>)],
       nextDroneId = 1\<rparr>)"
  unfolding collect_20
  by (simp add: collect_def getDrone_def Let_def example_config_def cargo_facts ratio_facts
        del: fadd.simps fdiv.simps)

text \<open>
  C8. For a drone in the collecting state with cargo \<open>g\<close>, \<open>collect(droneId, amount)\<close>
  returns \<open>min(amount, cargoCapacity - g)\<close>, adds it to the cargo, and moves the drone to
  returning exactly when the new cargo divided by \<open>cargoCapacity\<close> is at least
  \<open>1 - returnThreshold\<close> (all in binary64 arithmetic). With capacity 50 and threshold
  0.1, collecting 20 and then 30 on the freshly dispatched drone returns 20 and 30 and
  leaves cargo 20, still collecting, and then cargo 50, returning; the test on the ratio
  fails at cargo 44 and holds at cargo 45.
\<close>

theorem collect_spec:
  "(getDrone droneId W = Inr d \<and> drone_state d = Collecting \<longrightarrow>
      fst (collect droneId amount W) =
        Inr (fmin amount (fsub (cargoCapacity (droneSpec (config W))) (cargo d))) \<and>
      getDrone droneId (snd (collect droneId amount W)) =
        Inr (d\<lparr>cargo := fadd (cargo d) (fmin amount (fsub (cargoCapacity (droneSpec (config W))) (cargo d))),
               drone_state :=
                 (if fge (fdiv (fadd (cargo d) (fmin amount (fsub (cargoCapacity (droneSpec (config W))) (cargo d))))
                               (cargoCapacity (droneSpec (config W))))
                         (fsub (Fin 1) (returnThreshold (droneSpec (config W))))
                  then Returning else Collecting)\<rparr>)) \<and>
   fst (collect ''drone-0'' (Fin 20) dispatched_example) = Inr (Fin 20) \<and>
   map_option (\<lambda>d. (cargo d, drone_state d))
     (map_of (drones (snd (collect ''drone-0'' (Fin 20) dispatched_example))) ''drone-0'') =
     Some (Fin 20, Collecting) \<and>
   fst (collect ''drone-0'' (Fin 30) (snd (collect ''drone-0'' (Fin 20) dispatched_example))) =
     Inr (Fin 30) \<and>
   map_option (\<lambda>d. (cargo d, drone_state d))
     (map_of (drones (snd (collect ''drone-0'' (Fin 30)
        (snd (collect ''drone-0'' (Fin 20) dispatched_example))))) ''drone-0'') =
     Some (Fin 50, Returning) \<and>
   \<not> fge (fdiv (Fin 44) (Fin 50)) (fsub (Fin 1) (Fin (fl (1 / 10)))) \<and>
   fge (fdiv (Fin 45) (Fin 50)) (fsub (Fin 1) (Fin (fl (1 / 10))))"
proof -
  have gen: "getDrone droneId W = Inr d \<and> drone_state d = Collecting \<longrightarrow>
      fst (collect droneId amount W) =
        Inr (fmin amount (fsub (cargoCapacity (droneSpec (config W))) (cargo d))) \<and>
      getDrone droneId (snd (collect droneId amount W)) =
        Inr (d\<lparr>cargo := fadd (cargo d) (fmin amount (fsub (cargoCapacity (droneSpec (config W))) (cargo d))),
               drone_state :=
                 (if fge (fdiv (fadd (cargo d) (fmin amount (fsub (cargoCapacity (droneSpec (config W))) (cargo d))))
                               (cargoCapacity (droneSpec (config W))))
                         (fsub (Fin 1) (returnThreshold (droneSpec (config W))))
                  then Returning else Collecting)\<rparr>)"
    by (simp add: collect_def Let_def getDrone_map_set)
  show ?thesis
    using gen ratio_facts unfolding collect_30 unfolding collect_20 by simp
qed


theorem collect_spec_witness:
  "getDrone ''drone-0'' dispatched_example =
     Inr \<lparr>cargo = Fin 0, position = Some \<lparr>pos_x = Fin (- 50), pos_y = Fin 0, pos_z = Fin 0\<rparr>,
          drone_state = Collecting, routeId = Some ''route-intake-sweep''\<rparr> \<and>
   drone_state \<lparr>cargo = Fin 0, position = Some \<lparr>pos_x = Fin (- 50), pos_y = Fin 0, pos_z = Fin 0\<rparr>,
          drone_state = Collecting, routeId = Some ''route-intake-sweep''\<rparr> = Collecting \<and>
   fst (collect ''drone-0'' (Fin 20) dispatched_example) = Inr (Fin 20) \<and>
   getDrone ''drone-0'' (snd (collect ''drone-0'' (Fin 20) dispatched_example)) =
     Inr \<lparr>cargo = Fin 20, position = Some \<lparr>pos_x = Fin (- 50), pos_y = Fin 0, pos_z = Fin 0\<rparr>,
          drone_state = Collecting, routeId = Some ''route-intake-sweep''\<rparr>"
proof -
  have g: "getDrone ''drone-0'' dispatched_example =
     Inr \<lparr>cargo = Fin 0, position = Some \<lparr>pos_x = Fin (- 50), pos_y = Fin 0, pos_z = Fin 0\<rparr>,
          drone_state = Collecting, routeId = Some ''route-intake-sweep''\<rparr>"
    by (simp add: dispatched_example_eq getDrone_def)
  have e: "config dispatched_example = example_config"
    by (simp add: dispatched_example_eq)
  show ?thesis
    using g collect_spec[of "''drone-0''" dispatched_example
        "\<lparr>cargo = Fin 0, position = Some \<lparr>pos_x = Fin (- 50), pos_y = Fin 0, pos_z = Fin 0\<rparr>,
          drone_state = Collecting, routeId = Some ''route-intake-sweep''\<rparr>" "Fin 20"]
    by (simp add: e example_config_def cargo_facts ratio_facts del: fadd.simps fdiv.simps)
qed

text \<open>
  C9, as stated, fails: \<open>collect\<close> with a negative amount returns that negative amount and
  leaves the cargo below zero.
\<close>

theorem collect_negative_counterexample:
  "fst (collect ''drone-0'' (Fin (- 5)) dispatched_example) = Inr (Fin (- 5)) \<and>
   map_option cargo (map_of (drones (snd (collect ''drone-0'' (Fin (- 5)) dispatched_example))) ''drone-0'')
     = Some (Fin (- 5)) \<and>
   flt (Fin (- 5)) (Fin 0)"
  unfolding dispatched_example_eq
  by (simp add: collect_def getDrone_def Let_def example_config_def cargo_facts
        del: fadd.simps fdiv.simps)

lemma cargo_in_range_iff:
  "cargo_in_range C d \<longleftrightarrow> (\<exists>g. cargo d = Fin (of_int g) \<and> 0 \<le> g \<and> g \<le> C)"
proof
  assume "cargo_in_range C d"
  then obtain q where q: "cargo d = Fin q" "q = of_int \<lfloor>q\<rfloor>" "0 \<le> q" "q \<le> of_int C"
    by (auto simp: cargo_in_range_def split: number.splits)
  have "0 \<le> \<lfloor>q\<rfloor>" using q(3) by simp
  moreover have "\<lfloor>q\<rfloor> \<le> C" using q(4) by (simp add: floor_le_iff)
  ultimately show "\<exists>g. cargo d = Fin (of_int g) \<and> 0 \<le> g \<and> g \<le> C"
    using q(1,2) by metis
next
  assume "\<exists>g. cargo d = Fin (of_int g) \<and> 0 \<le> g \<and> g \<le> C"
  then show "cargo_in_range C d" by (auto simp: cargo_in_range_def)
qed

lemma cargo_in_range_int:
  "0 \<le> n \<Longrightarrow> n \<le> C \<Longrightarrow> cargo d = Fin (of_int n) \<Longrightarrow> cargo_in_range C d"
  unfolding cargo_in_range_iff by blast

lemma set_map_set: "set (map_set k v m) \<subseteq> insert (k, v) (set m)"
  by (induction m) (auto split: if_splits)

lemma fleet_ok_update:
  assumes "fleet_ok C W" "cargo_in_range C d"
  shows "fleet_ok C (W\<lparr>drones := map_set k d (drones W)\<rparr>)"
  using assms set_map_set[of k d "drones W"]
  by (auto simp: fleet_ok_def list_all_iff)

lemma fleet_ok_getDrone:
  assumes "fleet_ok C W" "getDrone k W = Inr d"
  shows "cargo_in_range C d"
proof -
  from assms(2) have "map_of (drones W) k = Some d"
    by (auto simp: getDrone_def split: option.splits)
  then have "(k, d) \<in> set (drones W)" by (rule map_of_SomeD)
  with assms(1) show ?thesis by (auto simp: fleet_ok_def list_all_iff)
qed

lemma collect_int:
  assumes C: "0 \<le> C" "C < 2 ^ 53" and g: "0 \<le> g" "g \<le> C" and a: "0 \<le> a"
  shows "fmin (Fin (of_int a)) (fsub (Fin (of_int C)) (Fin (of_int g))) = Fin (of_int (min a (C - g)))"
    and "fadd (Fin (of_int g)) (Fin (of_int (min a (C - g)))) = Fin (of_int (g + min a (C - g)))"
proof -
  have "\<bar>C - g\<bar> < 2 ^ 53" using C g by simp
  then show "fmin (Fin (of_int a)) (fsub (Fin (of_int C)) (Fin (of_int g))) = Fin (of_int (min a (C - g)))"
    by (simp only: fsub_int fmin_int)
  have "\<bar>g + min a (C - g)\<bar> < 2 ^ 53" using C g a by simp
  then show "fadd (Fin (of_int g)) (Fin (of_int (min a (C - g)))) = Fin (of_int (g + min a (C - g)))"
    by (rule fadd_int)
qed


lemma fleet_ok_next: "fleet_ok C (W\<lparr>nextDroneId := n\<rparr>) = fleet_ok C W"
  by (simp add: fleet_ok_def)

lemma spawn_step:
  assumes "fleet_ok C W" "0 \<le> C"
  shows "fleet_ok C (snd (spawnDrone W))"
proof (cases "maxDrones (config W) \<le> int (length (drones W))")
  case True
  then show ?thesis using assms by (simp add: spawnDrone_def)
next
  case False
  have r: "cargo_in_range C \<lparr>cargo = Fin 0, position = Some origin, drone_state = Idle, routeId = None\<rparr>"
    using assms(2) by (simp add: cargo_in_range_def)
  have "fleet_ok C (W\<lparr>nextDroneId := nextDroneId W + 1\<rparr>)"
    using assms(1) by (simp add: fleet_ok_next)
  from fleet_ok_update[OF this r, of "''drone-'' @ string_of_nat (nextDroneId W)"]
  show ?thesis using False by (simp add: spawnDrone_def Let_def)
qed

lemma dispatch_step:
  assumes "fleet_ok C W"
  shows "fleet_ok C (snd (dispatch k r W))"
proof (cases "getDrone k W")
  case (Inl e)
  then show ?thesis using assms by (simp add: dispatch_def)
next
  case (Inr d)
  show ?thesis
  proof (cases "find (\<lambda>x. route_id x = r) (patrolRoutes (config W))")
    case None
    with Inr assms show ?thesis by (simp add: dispatch_def)
  next
    case (Some rt)
    show ?thesis
    proof (cases "drone_state d = Idle")
      case False
      with Inr Some assms show ?thesis by (simp add: dispatch_def)
    next
      case True
      have "cargo_in_range C (d\<lparr>drone_state := Collecting, routeId := Some r,
              position := (case waypoints rt of [] \<Rightarrow> None | wp # x \<Rightarrow> Some wp)\<rparr>)"
        using fleet_ok_getDrone[OF assms Inr] by (simp add: cargo_in_range_def)
      from fleet_ok_update[OF assms this, of k]
      show ?thesis using Inr Some True by (simp add: dispatch_def)
    qed
  qed
qed

lemma collect_step:
  assumes ok: "fleet_ok C W" and C: "0 \<le> C" "C < 2 ^ 53" and a: "0 \<le> a"
  shows "fleet_ok C (snd (collect k (Fin (of_int a)) W))"
    and "fst (collect k (Fin (of_int a)) W) = Inr x \<Longrightarrow> fle (Fin 0) x"
proof -
  have cap: "cargoCapacity (droneSpec (config W)) = Fin (of_int C)"
    using ok by (simp add: fleet_ok_def)
  show "fleet_ok C (snd (collect k (Fin (of_int a)) W))"
  proof (cases "getDrone k W")
    case (Inl e)
    then show ?thesis using ok by (simp add: collect_def)
  next
    case (Inr d)
    show ?thesis
    proof (cases "drone_state d = Collecting")
      case False
      with Inr ok show ?thesis by (simp add: collect_def)
    next
      case True
      from fleet_ok_getDrone[OF ok Inr] obtain g where
        g: "cargo d = Fin (of_int g)" "0 \<le> g" "g \<le> C"
        unfolding cargo_in_range_iff by blast
      have b: "0 \<le> g + min a (C - g)" "g + min a (C - g) \<le> C" using g a by auto
      have r: "cargo_in_range C (d\<lparr>cargo := Fin (of_int (g + min a (C - g)))\<rparr>)"
        "cargo_in_range C (d\<lparr>cargo := Fin (of_int (g + min a (C - g))), drone_state := Returning\<rparr>)"
        by (rule cargo_in_range_int[OF b], simp)+
      show ?thesis
        using Inr True fleet_ok_update[OF ok r(1), of k] fleet_ok_update[OF ok r(2), of k]
        by (simp add: collect_def Let_def cap g(1) collect_int[OF C g(2,3) a]
              del: fadd.simps fdiv.simps fmin.simps)
    qed
  qed
  show "fle (Fin 0) x" if "fst (collect k (Fin (of_int a)) W) = Inr x"
  proof (cases "getDrone k W")
    case (Inl e)
    then show ?thesis using that by (simp add: collect_def)
  next
    case (Inr d)
    show ?thesis
    proof (cases "drone_state d = Collecting")
      case False
      with Inr that show ?thesis by (simp add: collect_def)
    next
      case True
      from fleet_ok_getDrone[OF ok Inr] obtain g where
        g: "cargo d = Fin (of_int g)" "0 \<le> g" "g \<le> C"
        unfolding cargo_in_range_iff by blast
      have "x = Fin (of_int (min a (C - g)))"
        using Inr True that
        by (simp add: collect_def Let_def cap g(1) collect_int[OF C g(2,3) a]
              del: fadd.simps fdiv.simps fmin.simps)
      then show ?thesis using a g by simp
    qed
  qed
qed

lemma return_step:
  assumes ok: "fleet_ok C W" and C: "0 \<le> C"
  shows "fleet_ok C (snd (returnToHub k W))"
    and "fst (returnToHub k W) = Inr x \<Longrightarrow> fle (Fin 0) x"
proof -
  have r: "cargo_in_range C (d\<lparr>cargo := Fin 0, position := Some origin, drone_state := Idle,
             routeId := None\<rparr>)" for d
    using C by (simp add: cargo_in_range_def)
  show "fleet_ok C (snd (returnToHub k W))"
  proof (cases "getDrone k W")
    case (Inl e)
    then show ?thesis using ok by (simp add: returnToHub_def)
  next
    case (Inr d)
    show ?thesis
      using Inr ok fleet_ok_update[OF ok r[of d], of k]
      by (cases "drone_state d") (simp_all add: returnToHub_def)
  qed
  show "fle (Fin 0) x" if "fst (returnToHub k W) = Inr x"
  proof (cases "getDrone k W")
    case (Inl e)
    then show ?thesis using that by (simp add: returnToHub_def)
  next
    case (Inr d)
    from fleet_ok_getDrone[OF ok Inr] obtain g where
      g: "cargo d = Fin (of_int g)" "0 \<le> g" "g \<le> C"
      unfolding cargo_in_range_iff by blast
    show ?thesis
      using Inr that g by (cases "drone_state d") (auto simp: returnToHub_def)
  qed
qed

lemma amount_ok_CollectD:
  assumes "amount_ok (Collect k v)"
  obtains a where "v = Fin (of_int a)" "0 \<le> a"
proof (cases v)
  case (Fin q)
  with assms have "q = of_int \<lfloor>q\<rfloor>" "0 \<le> \<lfloor>q\<rfloor>" by simp_all
  with Fin that show ?thesis by metis
qed (use assms in simp_all)

lemma snd_swarm_exec:
  "snd (swarm_exec c W) =
     (case c of SpawnDrone \<Rightarrow> snd (spawnDrone W) | Dispatch k r \<Rightarrow> snd (dispatch k r W)
      | Collect k v \<Rightarrow> snd (collect k v W) | ReturnToHub k \<Rightarrow> snd (returnToHub k W))"
  by (cases c) (simp_all split: prod.splits)

lemma fleet_ok_step:
  assumes ok: "fleet_ok C W" and C: "0 \<le> C" "C < 2 ^ 53" and c: "amount_ok c"
  shows "fleet_ok C (snd (swarm_exec c W))"
    and "fst (swarm_exec c W) = Inr (Amount x) \<Longrightarrow> fle (Fin 0) x"
proof -
  show "fleet_ok C (snd (swarm_exec c W))"
  proof (cases c)
    case SpawnDrone
    then show ?thesis using spawn_step[OF ok C(1)] by (simp add: snd_swarm_exec del: swarm_exec.simps)
  next
    case (Dispatch k r)
    then show ?thesis using dispatch_step[OF ok, of k r] by (simp add: snd_swarm_exec del: swarm_exec.simps)
  next
    case (Collect k v)
    with c obtain a where "v = Fin (of_int a)" "0 \<le> a" by (auto elim: amount_ok_CollectD)
    then show ?thesis using Collect collect_step(1)[OF ok C, of a k] by (simp add: snd_swarm_exec del: swarm_exec.simps)
  next
    case (ReturnToHub k)
    then show ?thesis using return_step(1)[OF ok C(1), of k] by (simp add: snd_swarm_exec del: swarm_exec.simps)
  qed
  show "fle (Fin 0) x" if h: "fst (swarm_exec c W) = Inr (Amount x)"
  proof (cases c)
    case SpawnDrone
    with h show ?thesis by (cases "spawnDrone W"; cases "fst (spawnDrone W)") auto
  next
    case (Dispatch k r)
    with h show ?thesis by (cases "dispatch k r W"; cases "fst (dispatch k r W)") auto
  next
    case (Collect k v)
    with c obtain a where v: "v = Fin (of_int a)" "0 \<le> a" by (auto elim: amount_ok_CollectD)
    from h have "fst (collect k (Fin (of_int a)) W) = Inr x"
      unfolding Collect v
      by (cases "collect k (Fin (of_int a)) W"; cases "fst (collect k (Fin (of_int a)) W)") auto
    from collect_step(2)[OF ok C v(2) this] show ?thesis .
  next
    case (ReturnToHub k)
    from h have "fst (returnToHub k W) = Inr x"
      unfolding ReturnToHub
      by (cases "returnToHub k W"; cases "fst (returnToHub k W)") auto
    from return_step(2)[OF ok C(1) this] show ?thesis .
  qed
qed

lemma fleet_ok_run:
  assumes "fleet_ok C W" "0 \<le> C" "C < 2 ^ 53" "list_all amount_ok calls"
  shows "fleet_ok C (swarm_run calls W)"
  using assms
proof (induction calls arbitrary: W)
  case Nil
  then show ?case by (simp add: swarm_run_def)
next
  case (Cons c calls)
  from Cons.prems have "fleet_ok C (snd (swarm_exec c W))"
    using fleet_ok_step(1)[of C W c] by simp
  from Cons.IH[OF this] Cons.prems show ?case by (simp add: swarm_run_def)
qed

text \<open>
  C9, amended. On a fresh controller whose \<open>cargoCapacity\<close> is an integer \<open>C\<close> with
  \<open>0 \<le> C < 2^53\<close>, after every sequence of \<open>spawnDrone\<close>, \<open>dispatch\<close>, \<open>collect\<close> and
  \<open>returnToHub\<close> calls in which each collect amount is a non-negative integer, the cargo
  of every drone is an integer between 0 and \<open>C\<close>, and the amount a further \<open>collect\<close> or
  \<open>returnToHub\<close> call returns is non-negative.
\<close>

theorem swarm_cargo_bounds:
  assumes "0 \<le> C" "C < 2 ^ 53" "cargoCapacity (droneSpec cfg) = Fin (of_int C)"
    and "list_all amount_ok calls" "amount_ok c"
  shows "list_all (\<lambda>(k, d). cargo_in_range C d) (drones (swarm_run calls (new_swarm cfg))) \<and>
     (\<forall>x. fst (swarm_exec c (swarm_run calls (new_swarm cfg))) = Inr (Amount x) \<longrightarrow> fle (Fin 0) x)"
proof -
  have "fleet_ok C (new_swarm cfg)"
    using assms(3) by (simp add: fleet_ok_def new_swarm_def)
  from fleet_ok_run[OF this assms(1,2,4)]
  have ok: "fleet_ok C (swarm_run calls (new_swarm cfg))" .
  then have "list_all (\<lambda>(k, d). cargo_in_range C d) (drones (swarm_run calls (new_swarm cfg)))"
    by (simp add: fleet_ok_def)
  moreover have "\<forall>x. fst (swarm_exec c (swarm_run calls (new_swarm cfg))) = Inr (Amount x) \<longrightarrow> fle (Fin 0) x"
    using fleet_ok_step(2)[OF ok assms(1,2,5)] by blast
  ultimately show ?thesis by blast
qed


lemma swarm_run_example:
  "swarm_run [SpawnDrone, Dispatch ''drone-0'' ''route-intake-sweep'', Collect ''drone-0'' (Fin 20)]
     (new_swarm example_config) = snd (collect ''drone-0'' (Fin 20) dispatched_example)"
  by (simp add: swarm_run_def dispatched_example_def split: prod.splits)

theorem swarm_cargo_bounds_witness:
  "(0::int) \<le> 50 \<and> (50::int) < 2 ^ 53 \<and>
   cargoCapacity (droneSpec example_config) = Fin (of_int 50) \<and>
   list_all amount_ok [SpawnDrone, Dispatch ''drone-0'' ''route-intake-sweep'', Collect ''drone-0'' (Fin 20)] \<and>
   amount_ok (Collect ''drone-0'' (Fin 30)) \<and>
   list_all (\<lambda>(k, d). cargo_in_range 50 d)
     (drones (swarm_run [SpawnDrone, Dispatch ''drone-0'' ''route-intake-sweep'', Collect ''drone-0'' (Fin 20)]
        (new_swarm example_config))) \<and>
   fst (swarm_exec (Collect ''drone-0'' (Fin 30))
        (swarm_run [SpawnDrone, Dispatch ''drone-0'' ''route-intake-sweep'', Collect ''drone-0'' (Fin 20)]
          (new_swarm example_config))) = Inr (Amount (Fin 30)) \<and>
   fle (Fin 0) (Fin 30)"
proof -
  have r: "fst (swarm_exec (Collect ''drone-0'' (Fin 30))
        (swarm_run [SpawnDrone, Dispatch ''drone-0'' ''route-intake-sweep'', Collect ''drone-0'' (Fin 20)]
          (new_swarm example_config))) = Inr (Amount (Fin 30))"
    unfolding swarm_run_example by (simp add: collect_30)
  show ?thesis
    using r swarm_cargo_bounds[of 50 example_config
      "[SpawnDrone, Dispatch ''drone-0'' ''route-intake-sweep'', Collect ''drone-0'' (Fin 20)]"
      "Collect ''drone-0'' (Fin 30)"]
    by (simp add: example_config_def)
qed

text \<open>
  The amounts have to be such that the arithmetic is exact: with the capacity
  \<open>2 + 3 * 2^-51\<close>, collecting \<open>3 * 2^-52\<close> and then 100 rounds the free space up to
  \<open>2 + 2 * 2^-51\<close> and the new cargo up to \<open>2 + 4 * 2^-51\<close>, above the capacity.
\<close>

lemma rounding_values:
  "is_double (Fin (2 + 3 / 2 ^ 51))"
  "is_double (Fin (3 / 2 ^ 52))"
  "is_double (Fin 100)"
  by code_simp+

lemma collect_overfill_by_rounding:
  "map_option cargo (map_of (drones (swarm_run
       [SpawnDrone, Dispatch ''drone-0'' ''route-intake-sweep'',
        Collect ''drone-0'' (Fin (3 / 2 ^ 52)), Collect ''drone-0'' (Fin 100)]
       (new_swarm rounding_config))) ''drone-0'') = Some (Fin (2 + 4 / 2 ^ 51))"
  by code_simp


section \<open>Planner controller: the throughput of a route\<close>

lemma foldl_fmin_map:
  "foldl (\<lambda>t conn. fmin t (ToNumber (bandwidth conn))) t cs =
   foldl fmin t (map (\<lambda>conn. ToNumber (bandwidth conn)) cs)"
  by (induction cs arbitrary: t) simp_all

lemma accepting_refinery_inputs:
  assumes "accepting_refinery bp resourceType = Some r"
  shows "inputTypes r \<noteq> None"
proof -
  from assms obtain vs where
    "find (\<lambda>s. s_type s = ''refinery'' \<and>
            (case inputTypes s of None \<Rightarrow> False | Some ts \<Rightarrow> resourceType \<in> set ts)) vs = Some r"
    by (auto simp: accepting_refinery_def find_in_zone_def split: option.splits)
  then show ?thesis by (auto simp: find_Some_iff split: option.splits)
qed

lemma output_type_returns:
  assumes "\<forall>r. refinery = Some r \<longrightarrow> outputTypes r \<noteq> None \<and> inputTypes r \<noteq> None"
  shows "\<exists>t. output_type refinery resourceType = Inr t"
proof (cases refinery)
  case None
  then show ?thesis by (simp add: output_type_def)
next
  case (Some r)
  with assms obtain outs ins where "outputTypes r = Some outs" "inputTypes r = Some ins" by auto
  with Some show ?thesis by (simp add: output_type_def Let_def)
qed

lemma storage_stage_returns:
  assumes "\<forall>r. refinery = Some r \<longrightarrow> outputTypes r \<noteq> None \<and> inputTypes r \<noteq> None"
  shows "\<exists>silo. storage_stage bp refinery resourceType = Inr silo"
proof (cases "zone_values bp ''storage-zone''")
  case None
  then show ?thesis by (simp add: storage_stage_def)
next
  case (Some vs)
  from output_type_returns[OF assms] obtain t where t: "output_type refinery resourceType = Inr t"
    by blast
  show ?thesis
    by (cases "find (\<lambda>s. (s_type s = ''silo'' \<or> s_type s = ''vault'') \<and> storedType s = t) vs")
       (simp_all add: storage_stage_def Some t)
qed

lemma planRoute_clamps:
  assumes dock: "intake_dock bp = Some dock"
    and well: "\<forall>r. accepting_refinery bp resourceType = Some r \<longrightarrow> outputTypes r \<noteq> None"
  shows "\<exists>r. planRoute bp resourceType = Inr r \<and>
     result_throughput r = foldl fmin PInf (throughput_clamps bp dock)"
proof -
  have "\<forall>r. accepting_refinery bp resourceType = Some r \<longrightarrow>
      outputTypes r \<noteq> None \<and> inputTypes r \<noteq> None"
    using well accepting_refinery_inputs by blast
  from storage_stage_returns[OF this]
  obtain silo where st: "storage_stage bp (accepting_refinery bp resourceType) resourceType = Inr silo"
    by blast
  show ?thesis
    unfolding planRoute_def dock throughput_clamps_def
    by (simp add: st Let_def foldl_fmin_map split: option.splits)
qed

lemmas planner_defs = intake_dock_def intake_conveyor_def
      accepting_refinery_def outbound_dock_def storage_stage_def output_type_def find_in_zone_def
      zone_values_def index_zones_def index_zone_def element_at_def plain_structure_def

lemma clamp_example_parts:
  "intake_dock clamp_example = Some ((plain_structure ''intake-dock-1'' ''dock'')\<lparr>throughput := Some (Fin 50)\<rparr>)"
  "accepting_refinery clamp_example ''raw-ore'' =
     Some ((plain_structure ''refinery-primary'' ''refinery'')
               \<lparr>inputTypes := Some [''raw-ore'', ''crystal-shard''],
                outputTypes := Some [''refined-ore'', ''crystal-dust'']\<rparr>)"
  "throughput_clamps clamp_example
     ((plain_structure ''intake-dock-1'' ''dock'')\<lparr>throughput := Some (Fin 50)\<rparr>) =
     [Fin 50, Fin 80, Fin 80, Fin 100, Fin 100, Fin 100]"
  by (simp_all add: clamp_example_def throughput_clamps_def planner_defs)

lemma planRoute_clamp_example:
  "planRoute clamp_example ''raw-ore'' =
     Inr \<lparr>route = [''intake-dock-1'', ''conveyor-1'', ''refinery-primary'', ''silo-refined'', ''out-dock-1''],
          result_throughput = Fin 50\<rparr>"
  by (simp add: planRoute_def clamp_example_def planner_defs Let_def)

lemma fmin_cases: "x \<noteq> NaN \<Longrightarrow> y \<noteq> NaN \<Longrightarrow> fmin x y = x \<or> fmin x y = y"
  by (cases x; cases y) (auto simp: min_def)

lemma fmin_lower: "x \<noteq> NaN \<Longrightarrow> y \<noteq> NaN \<Longrightarrow> fle (fmin x y) x \<and> fle (fmin x y) y"
  by (cases x; cases y) auto

lemma fle_trans: "fle x y \<Longrightarrow> fle y z \<Longrightarrow> fle x z"
  by (cases x; cases y; cases z) auto

lemma foldl_fmin_least:
  assumes "a \<noteq> NaN" "NaN \<notin> set xs"
  shows "foldl fmin a xs \<in> set (a # xs) \<and> (\<forall>x \<in> set (a # xs). fle (foldl fmin a xs) x)"
  using assms
proof (induction xs arbitrary: a)
  case Nil
  then show ?case by (cases a) auto
next
  case (Cons y ys)
  then have y: "y \<noteq> NaN" and ys: "NaN \<notin> set ys" by auto
  have m: "fmin a y \<noteq> NaN" using fmin_cases[OF Cons.prems(1) y] Cons.prems(1) y by auto
  from Cons.IH[OF m ys]
  have mem: "foldl fmin (fmin a y) ys \<in> set (fmin a y # ys)"
    and low: "\<forall>x \<in> set (fmin a y # ys). fle (foldl fmin (fmin a y) ys) x" by auto
  from low have l0: "fle (foldl fmin (fmin a y) ys) (fmin a y)" by simp
  from fle_trans[OF l0] fmin_lower[OF Cons.prems(1) y]
  have "fle (foldl fmin (fmin a y) ys) a" "fle (foldl fmin (fmin a y) ys) y" by blast+
  with low mem fmin_cases[OF Cons.prems(1) y] show ?case by auto
qed

lemma foldl_fmin_PInf:
  assumes "NaN \<notin> set xs" "xs \<noteq> []"
  shows "foldl fmin PInf xs \<in> set xs \<and> (\<forall>x \<in> set xs. fle (foldl fmin PInf xs) x)"
proof -
  from foldl_fmin_least[of PInf xs] assms(1)
  have mem: "foldl fmin PInf xs \<in> set (PInf # xs)"
    and low: "\<forall>x \<in> set xs. fle (foldl fmin PInf xs) x" by auto
  show ?thesis
  proof (cases "foldl fmin PInf xs = PInf")
    case True
    from assms(2) obtain y where y: "y \<in> set xs" by (cases xs) auto
    with low True have "fle PInf y" by auto
    then have "y = PInf" by (cases y) auto
    with y True low show ?thesis by simp
  next
    case False
    with mem low show ?thesis by auto
  qed
qed

text \<open>
  C5, as stated, fails: the throughput is also clamped by the declared throughput of the
  intake dock itself. Here the dock allows 50, the conveyor and the outbound dock 80 and
  every connection 100; the route's throughput is 50, not 80.
\<close>

theorem planRoute_intake_dock_clamps:
  "planRoute clamp_example ''raw-ore'' =
     Inr \<lparr>route = [''intake-dock-1'', ''conveyor-1'', ''refinery-primary'', ''silo-refined'', ''out-dock-1''],
          result_throughput = Fin 50\<rparr> \<and>
   foldl fmin PInf [Fin 80, Fin 80, Fin 100, Fin 100, Fin 100] = Fin 80 \<and>
   Fin 50 \<noteq> Fin 80"
  using planRoute_clamp_example by simp


text \<open>
  C5, amended. When the intake zone has a dock (and the refinery that accepts the
  resource, if any, declares its output types), \<open>planRoute\<close> returns, and its throughput
  is \<open>Math.min\<close> folded from \<open>+Infinity\<close> over the intake dock's throughput, the rate of
  the conveyor sourced from that dock (if there is one), the throughput of the
  distribution zone's dock (if there is one) and the bandwidth of every connection of
  the blueprint. When none of these is NaN, that is their minimum: one of them, and
  below or equal to each.
\<close>

theorem planRoute_throughput:
  assumes "intake_dock bp = Some dock"
    and "\<forall>r. accepting_refinery bp resourceType = Some r \<longrightarrow> outputTypes r \<noteq> None"
  shows "\<exists>r. planRoute bp resourceType = Inr r \<and>
     result_throughput r = foldl fmin PInf (throughput_clamps bp dock) \<and>
     (NaN \<notin> set (throughput_clamps bp dock) \<longrightarrow>
        result_throughput r \<in> set (throughput_clamps bp dock) \<and>
        (\<forall>x \<in> set (throughput_clamps bp dock). fle (result_throughput r) x))"
proof -
  from planRoute_clamps[OF assms] obtain r where
    r: "planRoute bp resourceType = Inr r"
       "result_throughput r = foldl fmin PInf (throughput_clamps bp dock)" by blast
  have ne: "throughput_clamps bp dock \<noteq> []" by (simp add: throughput_clamps_def)
  show ?thesis
    using r foldl_fmin_PInf[OF _ ne] by auto
qed

theorem planRoute_throughput_witness:
  "intake_dock clamp_example =
     Some ((plain_structure ''intake-dock-1'' ''dock'')\<lparr>throughput := Some (Fin 50)\<rparr>) \<and>
   accepting_refinery clamp_example ''raw-ore'' =
     Some ((plain_structure ''refinery-primary'' ''refinery'')
               \<lparr>inputTypes := Some [''raw-ore'', ''crystal-shard''],
                outputTypes := Some [''refined-ore'', ''crystal-dust'']\<rparr>) \<and>
   outputTypes ((plain_structure ''refinery-primary'' ''refinery'')
               \<lparr>inputTypes := Some [''raw-ore'', ''crystal-shard''],
                outputTypes := Some [''refined-ore'', ''crystal-dust'']\<rparr>) \<noteq> None \<and>
   throughput_clamps clamp_example
     ((plain_structure ''intake-dock-1'' ''dock'')\<lparr>throughput := Some (Fin 50)\<rparr>) =
     [Fin 50, Fin 80, Fin 80, Fin 100, Fin 100, Fin 100] \<and>
   NaN \<notin> set [Fin 50, Fin 80, Fin 80, Fin 100, Fin 100, Fin 100] \<and>
   (\<exists>r. planRoute clamp_example ''raw-ore'' = Inr r \<and>
      result_throughput r = foldl fmin PInf [Fin 50, Fin 80, Fin 80, Fin 100, Fin 100, Fin 100] \<and>
      result_throughput r = Fin 50 \<and>
      result_throughput r \<in> set [Fin 50, Fin 80, Fin 80, Fin 100, Fin 100, Fin 100] \<and>
      fle (result_throughput r) (Fin 50) \<and> fle (result_throughput r) (Fin 80) \<and>
      fle (result_throughput r) (Fin 100))"
proof -
  have w: "\<forall>r. accepting_refinery clamp_example ''raw-ore'' = Some r \<longrightarrow> outputTypes r \<noteq> None"
    by (simp add: clamp_example_parts(2) plain_structure_def)
  from planRoute_throughput[OF clamp_example_parts(1) w]
  obtain r where r: "planRoute clamp_example ''raw-ore'' = Inr r"
    "result_throughput r = foldl fmin PInf [Fin 50, Fin 80, Fin 80, Fin 100, Fin 100, Fin 100]"
    unfolding clamp_example_parts(3) by blast
  from r(1) have v: "result_throughput r = Fin 50"
    unfolding planRoute_clamp_example by auto
  show ?thesis
    using r v clamp_example_parts by (auto simp: plain_structure_def)
qed

section \<open>Tick engine: ticking several copies of a primitive\<close>

lemma six_strip_morale:
  "map_sum (\<lambda>e. e) morale_delta (tick (replicate 6 example_strip) () 42) =
     Inr (Fin (5404319552844595 / 9007199254740992))"
  by code_simp

lemma six_times_tenth:
  "fmul (Fin 6) (Fin (fl (1 / 10))) = Fin (5404319552844596 / 9007199254740992)"
  "6 * fl (1 / 10) = 10808639105689191 / 18014398509481984"
  by code_simp+

text \<open>
  Rounding also breaks the linearity of power_consumed as soon as the power consumption
  is not an integer: six copies of a primitive consuming 0.1 consume 0.6, which is not
  \<open>6 * 0.1\<close>.
\<close>

lemma six_tenth_consumers:
  "map_sum (\<lambda>e. e) power_consumed (tick (replicate 6 tenth_consumer) () 42) =
     Inr (Fin (5404319552844595 / 9007199254740992))"
  "map_sum (\<lambda>e. e) power_consumed (tick [tenth_consumer] () 42) = Inr (Fin (fl (1 / 10)))"
  by code_simp+

text \<open>
  C4, as stated, fails: the engine adds the contributions one after the other in binary64
  arithmetic, and each addition rounds. Six copies of the strip give a morale_delta of
  0.6 (the sum 0.1 + 0.1 + ... as the engine computes it), which is neither \<open>6 * 0.1\<close> as
  JavaScript computes it (0.6000000000000001) nor six times the rational value of the
  single-copy field.
\<close>

theorem six_strips_not_linear:
  "map_sum (\<lambda>e. e) morale_delta (tick [example_strip] () 42) = Inr (Fin (fl (1 / 10))) \<and>
   map_sum (\<lambda>e. e) morale_delta (tick (replicate 6 example_strip) () 42) =
     Inr (Fin (5404319552844595 / 9007199254740992)) \<and>
   fmul (Fin 6) (Fin (fl (1 / 10))) = Fin (5404319552844596 / 9007199254740992) \<and>
   6 * fl (1 / 10) = 10808639105689191 / 18014398509481984 \<and>
   (5404319552844595 / 9007199254740992 :: rat) \<noteq> 5404319552844596 / 9007199254740992 \<and>
   (5404319552844595 / 9007199254740992 :: rat) \<noteq> 10808639105689191 / 18014398509481984"
proof -
  have a: "map_sum (\<lambda>e. e) morale_delta (tick [example_strip] () 42) = Inr (Fin (fl (1 / 10)))"
    by (simp add: tick_example_strip)
  have b: "(5404319552844595 / 9007199254740992 :: rat) \<noteq> 5404319552844596 / 9007199254740992"
    by simp
  have c: "(5404319552844595 / 9007199254740992 :: rat) \<noteq> 10808639105689191 / 18014398509481984"
    by simp
  show ?thesis
    by (intro conjI) (rule a six_strip_morale six_times_tenth b c)+
qed


lemma zero_output_int: "zero_output = int_output 0 0 0 (Fin 0) 0"
  by (simp add: zero_output_def int_output_def)

lemma count_le_length: "count_list cs x \<le> length cs"
  by (induction cs) auto

lemma abs_budget:
  fixes a g :: int
  assumes "n \<le> m"
  shows "\<bar>a + int n * g\<bar> \<le> \<bar>a\<bar> + int m * \<bar>g\<bar>"
proof -
  have "\<bar>a + int n * g\<bar> \<le> \<bar>a\<bar> + \<bar>int n * g\<bar>" by (rule abs_triangle_ineq)
  also have "\<bar>int n * g\<bar> = int n * \<bar>g\<bar>" by (simp add: abs_mult)
  also have "int n * \<bar>g\<bar> \<le> int m * \<bar>g\<bar>" using assms by (simp add: mult_right_mono)
  finally show ?thesis by simp
qed

lemma merge_power:
  assumes "\<bar>pd + g\<bar> < 2 ^ 53"
  shows "merge_result (int_output pd pc ll m vs) [(''power_delta'', Fin (of_int g))] =
     int_output (pd + g) pc ll m vs"
  using fadd_int[OF assms]
  by (simp add: merge_result_def add_key_def int_output_def del: fadd.simps)

lemma merge_light:
  assumes "\<bar>ll + l\<bar> < 2 ^ 53"
  shows "merge_result (int_output pd pc ll m vs) [(''light_level_delta'', Fin (of_int l))] =
     int_output pd pc (ll + l) m vs"
  using fadd_int[OF assms]
  by (simp add: merge_result_def add_key_def int_output_def del: fadd.simps)

lemma merge_visibility:
  assumes "\<bar>vs + v\<bar> < 2 ^ 53"
  shows "merge_result (int_output pd pc ll m vs) [(''visibility_score_delta'', Fin (of_int v))] =
     int_output pd pc ll m (vs + v)"
  using fadd_int[OF assms]
  by (simp add: merge_result_def add_key_def int_output_def del: fadd.simps)

lemma merge_morale:
  "merge_result (int_output pd pc ll m vs) [(''morale_delta'', x)] =
     int_output pd pc ll (fadd m x) vs"
  by (simp add: merge_result_def add_key_def int_output_def del: fadd.simps)

lemma CAP_registry_names:
  "CAPABILITIES ''POWER_GENERATION'' = Own POWER_GENERATION"
  "CAPABILITIES ''HABITATION'' = Own HABITATION"
  "CAPABILITIES ''LIGHTING'' = Own LIGHTING"
  "CAPABILITIES ''AESTHETIC'' = Own AESTHETIC"
  "CAPABILITIES ''WAYFINDING'' = Own WAYFINDING"
  "CAPABILITIES ''STORAGE'' = Own STORAGE"
  "CAPABILITIES ''TRANSPORT'' = Own TRANSPORT"
  by (simp_all add: CAPABILITIES_def registry_def)

lemma run_caps_step_power:
  assumes "power_generation (sim p) = Fin (of_int g)" "\<bar>pd + g\<bar> < 2 ^ 53"
  shows "run_caps p st (''POWER_GENERATION'' # cs) (int_output pd pc ll m vs, rng) =
     run_caps p st cs (int_output (pd + g) pc ll m vs, rng)"
  by (simp only: run_caps.simps CAP_registry_names lookup.case cap_tick.simps assms(1)
        prod.case fst_conv snd_conv merge_power[OF assms(2)])

lemma run_caps_step_light:
  assumes "power_consumption (sim p) = Fin (of_int c)" "\<bar>ll + (if 0 < c then 1 else 0)\<bar> < 2 ^ 53"
  shows "run_caps p st (''LIGHTING'' # cs) (int_output pd pc ll m vs, rng) =
     run_caps p st cs (int_output pd pc (ll + (if 0 < c then 1 else 0)) m vs, rng)"
proof -
  have fg: "fgt (Fin (of_int c)) (Fin 0) = (0 < c)" by (simp add: fgt_def)
  have lit: "(if 0 < c then Fin 1 else Fin 0) = Fin (of_int (if 0 < c then 1 else 0))" by simp
  show ?thesis
    by (simp only: run_caps.simps CAP_registry_names lookup.case cap_tick.simps assms(1)
          fg lit prod.case fst_conv snd_conv merge_light[OF assms(2)])
qed

lemma run_caps_step_visibility:
  assumes "visibility_score (sim p) = Fin (of_int v)" "\<bar>vs + v\<bar> < 2 ^ 53"
  shows "run_caps p st (''WAYFINDING'' # cs) (int_output pd pc ll m vs, rng) =
     run_caps p st cs (int_output pd pc ll m (vs + v), rng)"
  by (simp only: run_caps.simps CAP_registry_names lookup.case cap_tick.simps assms(1)
        prod.case fst_conv snd_conv merge_visibility[OF assms(2)])

lemma run_caps_step_morale:
  "run_caps p st (''AESTHETIC'' # cs) (int_output pd pc ll m vs, rng) =
     run_caps p st cs (int_output pd pc ll (fadd m (Fin (fl (1 / 10)))) vs, rng)"
  by (simp only: run_caps.simps CAP_registry_names lookup.case cap_tick.simps
        prod.case fst_conv snd_conv merge_morale)

lemma merge_empty: "merge_result out [] = out"
  by (simp add: merge_result_def)

lemma run_caps_step_empty:
  "run_caps p st (''HABITATION'' # cs) (out, rng) = run_caps p st cs (out, rng)"
  "run_caps p st (''STORAGE'' # cs) (out, rng) = run_caps p st cs (out, rng)"
  "run_caps p st (''TRANSPORT'' # cs) (out, rng) = run_caps p st cs (out, rng)"
  by (simp_all only: run_caps.simps CAP_registry_names lookup.case cap_tick.simps
        prod.case fst_conv snd_conv merge_empty)

lemma count_other:
  "count_list (''HABITATION'' # cs) ''POWER_GENERATION'' = count_list cs ''POWER_GENERATION''"
  "count_list (''HABITATION'' # cs) ''LIGHTING'' = count_list cs ''LIGHTING''"
  "count_list (''HABITATION'' # cs) ''WAYFINDING'' = count_list cs ''WAYFINDING''"
  "count_list (''HABITATION'' # cs) ''AESTHETIC'' = count_list cs ''AESTHETIC''"
  "count_list (''STORAGE'' # cs) ''POWER_GENERATION'' = count_list cs ''POWER_GENERATION''"
  "count_list (''STORAGE'' # cs) ''LIGHTING'' = count_list cs ''LIGHTING''"
  "count_list (''STORAGE'' # cs) ''WAYFINDING'' = count_list cs ''WAYFINDING''"
  "count_list (''STORAGE'' # cs) ''AESTHETIC'' = count_list cs ''AESTHETIC''"
  "count_list (''TRANSPORT'' # cs) ''POWER_GENERATION'' = count_list cs ''POWER_GENERATION''"
  "count_list (''TRANSPORT'' # cs) ''LIGHTING'' = count_list cs ''LIGHTING''"
  "count_list (''TRANSPORT'' # cs) ''WAYFINDING'' = count_list cs ''WAYFINDING''"
  "count_list (''TRANSPORT'' # cs) ''AESTHETIC'' = count_list cs ''AESTHETIC''"
  "count_list (''POWER_GENERATION'' # cs) ''POWER_GENERATION'' = Suc (count_list cs ''POWER_GENERATION'')"
  "count_list (''POWER_GENERATION'' # cs) ''LIGHTING'' = count_list cs ''LIGHTING''"
  "count_list (''POWER_GENERATION'' # cs) ''WAYFINDING'' = count_list cs ''WAYFINDING''"
  "count_list (''POWER_GENERATION'' # cs) ''AESTHETIC'' = count_list cs ''AESTHETIC''"
  "count_list (''LIGHTING'' # cs) ''POWER_GENERATION'' = count_list cs ''POWER_GENERATION''"
  "count_list (''LIGHTING'' # cs) ''LIGHTING'' = Suc (count_list cs ''LIGHTING'')"
  "count_list (''LIGHTING'' # cs) ''WAYFINDING'' = count_list cs ''WAYFINDING''"
  "count_list (''LIGHTING'' # cs) ''AESTHETIC'' = count_list cs ''AESTHETIC''"
  "count_list (''WAYFINDING'' # cs) ''POWER_GENERATION'' = count_list cs ''POWER_GENERATION''"
  "count_list (''WAYFINDING'' # cs) ''LIGHTING'' = count_list cs ''LIGHTING''"
  "count_list (''WAYFINDING'' # cs) ''WAYFINDING'' = Suc (count_list cs ''WAYFINDING'')"
  "count_list (''WAYFINDING'' # cs) ''AESTHETIC'' = count_list cs ''AESTHETIC''"
  "count_list (''AESTHETIC'' # cs) ''POWER_GENERATION'' = count_list cs ''POWER_GENERATION''"
  "count_list (''AESTHETIC'' # cs) ''LIGHTING'' = count_list cs ''LIGHTING''"
  "count_list (''AESTHETIC'' # cs) ''WAYFINDING'' = count_list cs ''WAYFINDING''"
  "count_list (''AESTHETIC'' # cs) ''AESTHETIC'' = Suc (count_list cs ''AESTHETIC'')"
  by simp_all

lemma add_tenths_0: "add_tenths 0 m = m"
  by (simp add: add_tenths_def)

lemma add_tenths_first: "add_tenths n (fadd m (Fin (fl (1 / 10)))) = add_tenths (Suc n) m"
  using funpow_swap1[of "\<lambda>x. fadd x (Fin (fl (1 / 10)))" n m]
  by (simp add: add_tenths_def del: fadd.simps)

lemma add_tenths_add: "add_tenths n (add_tenths k m) = add_tenths (n + k) m"
  by (simp only: add_tenths_def funpow_add o_apply)

lemma run_caps_int:
  fixes g c v :: int
  assumes sim: "sim p = \<lparr>power_generation = Fin (of_int g), power_consumption = Fin (of_int c),
                          visibility_score = Fin (of_int v)\<rparr>"
    and names: "set cs \<subseteq> set registry_names"
    and bg: "\<bar>pd\<bar> + int (length cs) * \<bar>g\<bar> < 2 ^ 53"
    and bl: "\<bar>ll\<bar> + int (length cs) < 2 ^ 53"
    and bv: "\<bar>vs\<bar> + int (length cs) * \<bar>v\<bar> < 2 ^ 53"
  shows "run_caps p st cs (int_output pd pc ll m vs, rng) =
     Inr (int_output (pd + int (count_list cs ''POWER_GENERATION'') * g) pc
            (ll + int (count_list cs ''LIGHTING'') * (if 0 < c then 1 else 0))
            (add_tenths (count_list cs ''AESTHETIC'') m)
            (vs + int (count_list cs ''WAYFINDING'') * v), rng)"
  using names bg bl bv
proof (induction cs arbitrary: pd ll m vs)
  case Nil
  then show ?case by (simp add: add_tenths_0)
next
  case (Cons n cs)
  have sg: "power_generation (sim p) = Fin (of_int g)"
    and sc: "power_consumption (sim p) = Fin (of_int c)"
    and sv: "visibility_score (sim p) = Fin (of_int v)"
    by (simp_all add: sim)
  have n: "n \<in> set registry_names" and cs: "set cs \<subseteq> set registry_names"
    using Cons.prems(1) by auto
  have g0: "0 \<le> \<bar>g\<bar>" and v0: "0 \<le> \<bar>v\<bar>" by simp_all
  have bg': "\<bar>pd\<bar> + \<bar>g\<bar> + int (length cs) * \<bar>g\<bar> < 2 ^ 53"
    using Cons.prems(2) by (simp add: algebra_simps)
  have bl': "\<bar>ll\<bar> + 1 + int (length cs) < 2 ^ 53"
    using Cons.prems(3) by simp
  have bv': "\<bar>vs\<bar> + \<bar>v\<bar> + int (length cs) * \<bar>v\<bar> < 2 ^ 53"
    using Cons.prems(4) by (simp add: algebra_simps)
  have lg: "0 \<le> int (length cs) * \<bar>g\<bar>" and lv: "0 \<le> int (length cs) * \<bar>v\<bar>"
    by simp_all
  have pg: "\<bar>pd + g\<bar> \<le> \<bar>pd\<bar> + \<bar>g\<bar>" by (rule abs_triangle_ineq)
  have pv: "\<bar>vs + v\<bar> \<le> \<bar>vs\<bar> + \<bar>v\<bar>" by (rule abs_triangle_ineq)
  have pl: "\<bar>ll + (if 0 < c then 1 else 0)\<bar> \<le> \<bar>ll\<bar> + 1"
    using abs_triangle_ineq[of ll "if 0 < c then 1 else 0"] by (auto split: if_splits)
  have same: "\<bar>pd\<bar> + int (length cs) * \<bar>g\<bar> < 2 ^ 53" "\<bar>ll\<bar> + int (length cs) < 2 ^ 53"
    "\<bar>vs\<bar> + int (length cs) * \<bar>v\<bar> < 2 ^ 53"
    using bg' g0 bl' bv' v0 by linarith+
  from n have "n = ''POWER_GENERATION'' \<or> n = ''HABITATION'' \<or> n = ''LIGHTING''
      \<or> n = ''AESTHETIC'' \<or> n = ''WAYFINDING'' \<or> n = ''STORAGE'' \<or> n = ''TRANSPORT''"
    unfolding registry_names_def registry_def
    by (simp only: list.map list.set fst_conv insert_iff empty_iff simp_thms)
  then show ?case
  proof (elim disjE, goal_cases)
    case 1
    have b: "\<bar>pd + g\<bar> < 2 ^ 53" using bg' pg lg by linarith
    have "\<bar>pd + g\<bar> + int (length cs) * \<bar>g\<bar> < 2 ^ 53" using bg' pg by linarith
    from Cons.IH[OF cs this same(2,3)]
    show ?case
      unfolding 1 run_caps_step_power[OF sg b]
      by (simp only: count_other) (simp add: algebra_simps)
  next
    case 2
    from Cons.IH[OF cs same]
    show ?case unfolding 2 run_caps_step_empty by (simp only: count_other)
  next
    case 3
    have b: "\<bar>ll + (if 0 < c then 1 else 0)\<bar> < 2 ^ 53" using bl' pl by linarith
    have "\<bar>ll + (if 0 < c then 1 else 0)\<bar> + int (length cs) < 2 ^ 53"
      using bl' pl by linarith
    from Cons.IH[OF cs same(1) this same(3)]
    show ?case
      unfolding 3 run_caps_step_light[OF sc b]
      by (simp only: count_other) (simp add: algebra_simps)
  next
    case 4
    from Cons.IH[OF cs same]
    show ?case
      unfolding 4 run_caps_step_morale
      by (simp only: count_other add_tenths_first)
  next
    case 5
    have b: "\<bar>vs + v\<bar> < 2 ^ 53" using bv' pv lv by linarith
    have "\<bar>vs + v\<bar> + int (length cs) * \<bar>v\<bar> < 2 ^ 53" using bv' pv by linarith
    from Cons.IH[OF cs same(1,2) this]
    show ?case
      unfolding 5 run_caps_step_visibility[OF sv b]
      by (simp only: count_other) (simp add: algebra_simps)
  next
    case 6
    from Cons.IH[OF cs same]
    show ?case unfolding 6 run_caps_step_empty by (simp only: count_other)
  next
    case 7
    from Cons.IH[OF cs same]
    show ?case unfolding 7 run_caps_step_empty by (simp only: count_other)
  qed
qed


lemma fmul_int:
  "\<bar>a * b\<bar> < 2 ^ 53 \<Longrightarrow> fmul (Fin (of_int a)) (Fin (of_int b)) = Fin (of_int (a * b))"
  using to_number_of_int[of "a * b"] by simp

lemma consume_int:
  assumes "\<bar>pc + c\<bar> < 2 ^ 53"
  shows "(int_output pd pc ll m vs)\<lparr>power_consumed :=
           fadd (power_consumed (int_output pd pc ll m vs)) (Fin (of_int c))\<rparr> =
         int_output pd (pc + c) ll m vs"
  using fadd_int[OF assms] by (simp add: int_output_def del: fadd.simps)

lemma tick_loop_int:
  fixes g c v :: int
  assumes sim: "sim p = \<lparr>power_generation = Fin (of_int g), power_consumption = Fin (of_int c),
                          visibility_score = Fin (of_int v)\<rparr>"
    and names: "set (capabilities p) \<subseteq> set registry_names"
    and bg: "\<bar>pd\<bar> + int n * (int (length (capabilities p)) * \<bar>g\<bar>) < 2 ^ 53"
    and bc: "\<bar>pc\<bar> + int n * \<bar>c\<bar> < 2 ^ 53"
    and bl: "\<bar>ll\<bar> + int n * int (length (capabilities p)) < 2 ^ 53"
    and bv: "\<bar>vs\<bar> + int n * (int (length (capabilities p)) * \<bar>v\<bar>) < 2 ^ 53"
  shows "tick_loop (replicate n p) st (int_output pd pc ll m vs, rng) =
     Inr (int_output
            (pd + int n * (int (count_list (capabilities p) ''POWER_GENERATION'') * g))
            (pc + int n * c)
            (ll + int n * (int (count_list (capabilities p) ''LIGHTING'') * (if 0 < c then 1 else 0)))
            (add_tenths (n * count_list (capabilities p) ''AESTHETIC'') m)
            (vs + int n * (int (count_list (capabilities p) ''WAYFINDING'') * v)), rng)"
  using bg bc bl bv
proof (induction n arbitrary: pd pc ll m vs)
  case 0
  then show ?case by (simp add: add_tenths_0)
next
  case (Suc n)
  define len where "len = int (length (capabilities p))"
  define G where "G = len * \<bar>g\<bar>"
  define V where "V = len * \<bar>v\<bar>"
  define nG where "nG = count_list (capabilities p) ''POWER_GENERATION''"
  define nL where "nL = count_list (capabilities p) ''LIGHTING''"
  define nW where "nW = count_list (capabilities p) ''WAYFINDING''"
  define nA where "nA = count_list (capabilities p) ''AESTHETIC''"
  define l :: int where "l = (if 0 < c then 1 else 0)"
  have len0: "0 \<le> len" and G0: "0 \<le> G" and V0: "0 \<le> V"
    by (simp_all add: len_def G_def V_def)
  have nG0: "0 \<le> int n * G" and nV0: "0 \<le> int n * V" and nl0: "0 \<le> int n * len"
    and nc0: "0 \<le> int n * \<bar>c\<bar>"
    using G0 V0 len0 by simp_all
  have bg': "\<bar>pd\<bar> + G + int n * G < 2 ^ 53"
    using Suc.prems(1) by (simp add: G_def len_def algebra_simps)
  have bc': "\<bar>pc\<bar> + \<bar>c\<bar> + int n * \<bar>c\<bar> < 2 ^ 53"
    using Suc.prems(2) by (simp add: algebra_simps)
  have bl': "\<bar>ll\<bar> + len + int n * len < 2 ^ 53"
    using Suc.prems(3) by (simp add: len_def algebra_simps)
  have bv': "\<bar>vs\<bar> + V + int n * V < 2 ^ 53"
    using Suc.prems(4) by (simp add: V_def len_def algebra_simps)
  have c1: "\<bar>pc + c\<bar> \<le> \<bar>pc\<bar> + \<bar>c\<bar>" by (rule abs_triangle_ineq)
  have c2: "\<bar>pc + c\<bar> < 2 ^ 53" using bc' c1 nc0 by linarith
  have "\<bar>pd\<bar> + G < 2 ^ 53" using bg' nG0 by linarith
  then have r1: "\<bar>pd\<bar> + int (length (capabilities p)) * \<bar>g\<bar> < 2 ^ 53"
    by (simp add: G_def len_def)
  have "\<bar>ll\<bar> + len < 2 ^ 53" using bl' nl0 by linarith
  then have r2: "\<bar>ll\<bar> + int (length (capabilities p)) < 2 ^ 53"
    by (simp add: len_def)
  have "\<bar>vs\<bar> + V < 2 ^ 53" using bv' nV0 by linarith
  then have r3: "\<bar>vs\<bar> + int (length (capabilities p)) * \<bar>v\<bar> < 2 ^ 53"
    by (simp add: V_def len_def)
  have inner: "run_caps p st (capabilities p) (int_output pd (pc + c) ll m vs, rng) =
     Inr (int_output (pd + int nG * g) (pc + c) (ll + int nL * l) (add_tenths nA m)
            (vs + int nW * v), rng)"
    unfolding nG_def nL_def nW_def nA_def l_def
    by (rule run_caps_int[OF sim names r1 r2 r3])
  have a1: "\<bar>pd + int nG * g\<bar> \<le> \<bar>pd\<bar> + G"
    unfolding G_def len_def nG_def by (rule abs_budget[OF count_le_length])
  have a3: "\<bar>vs + int nW * v\<bar> \<le> \<bar>vs\<bar> + V"
    unfolding V_def len_def nW_def by (rule abs_budget[OF count_le_length])
  have "\<bar>ll + int nL * l\<bar> \<le> \<bar>ll\<bar> + len * \<bar>l\<bar>"
    unfolding len_def nL_def by (rule abs_budget[OF count_le_length])
  moreover have "len * \<bar>l\<bar> \<le> len" using len0 by (simp add: l_def)
  ultimately have a2: "\<bar>ll + int nL * l\<bar> \<le> \<bar>ll\<bar> + len" by linarith
  have "\<bar>pd + int nG * g\<bar> + int n * G < 2 ^ 53" using a1 bg' by linarith
  then have i1: "\<bar>pd + int nG * g\<bar> + int n * (int (length (capabilities p)) * \<bar>g\<bar>) < 2 ^ 53"
    by (simp add: G_def len_def)
  have i2: "\<bar>pc + c\<bar> + int n * \<bar>c\<bar> < 2 ^ 53" using c1 bc' by linarith
  have "\<bar>ll + int nL * l\<bar> + int n * len < 2 ^ 53" using a2 bl' by linarith
  then have i3: "\<bar>ll + int nL * l\<bar> + int n * int (length (capabilities p)) < 2 ^ 53"
    by (simp add: len_def)
  have "\<bar>vs + int nW * v\<bar> + int n * V < 2 ^ 53" using a3 bv' by linarith
  then have i4: "\<bar>vs + int nW * v\<bar> + int n * (int (length (capabilities p)) * \<bar>v\<bar>) < 2 ^ 53"
    by (simp add: V_def len_def)
  have sc: "power_consumption (sim p) = Fin (of_int c)" by (simp add: sim)
  have step: "tick_loop (replicate (Suc n) p) st (int_output pd pc ll m vs, rng) =
      tick_loop (replicate n p) st
        (int_output (pd + int nG * g) (pc + c) (ll + int nL * l) (add_tenths nA m)
           (vs + int nW * v), rng)"
    by (simp only: replicate_Suc tick_loop.simps fst_conv snd_conv sc consume_int[OF c2] inner
          sum.case)
  show ?case
    unfolding step Suc.IH[OF i1 i2 i3 i4]
    by (simp add: nG_def nL_def nW_def nA_def l_def add_tenths_add algebra_simps)
qed

lemma tenth_value: "fl (1 / 10) = 3602879701896397 / 36028797018963968"
  by code_simp

lemma tenth_sums:
  "fadd (Fin 0) (Fin (3602879701896397 / 36028797018963968)) =
     Fin (3602879701896397 / 36028797018963968)"
  "fadd (Fin (3602879701896397 / 36028797018963968)) (Fin (3602879701896397 / 36028797018963968)) =
     Fin (3602879701896397 / 18014398509481984)"
  "fadd (Fin (3602879701896397 / 18014398509481984)) (Fin (3602879701896397 / 36028797018963968)) =
     Fin (1351079888211149 / 4503599627370496)"
  "fadd (Fin (1351079888211149 / 4503599627370496)) (Fin (3602879701896397 / 36028797018963968)) =
     Fin (3602879701896397 / 9007199254740992)"
  "fadd (Fin (3602879701896397 / 9007199254740992)) (Fin (3602879701896397 / 36028797018963968)) =
     Fin (1 / 2)"
  by code_simp+

lemma tenth_products:
  "fmul (Fin 1) (Fin (3602879701896397 / 36028797018963968)) =
     Fin (3602879701896397 / 36028797018963968)"
  "fmul (Fin 1) (Fin (3602879701896397 / 18014398509481984)) =
     Fin (3602879701896397 / 18014398509481984)"
  "fmul (Fin 1) (Fin (1351079888211149 / 4503599627370496)) =
     Fin (1351079888211149 / 4503599627370496)"
  "fmul (Fin 1) (Fin (3602879701896397 / 9007199254740992)) =
     Fin (3602879701896397 / 9007199254740992)"
  "fmul (Fin 1) (Fin (1 / 2)) = Fin (1 / 2)"
  "fmul (Fin 2) (Fin (3602879701896397 / 36028797018963968)) =
     Fin (3602879701896397 / 18014398509481984)"
  "fmul (Fin 2) (Fin (3602879701896397 / 18014398509481984)) =
     Fin (3602879701896397 / 9007199254740992)"
  "fmul (Fin 3) (Fin (3602879701896397 / 36028797018963968)) =
     Fin (1351079888211149 / 4503599627370496)"
  "fmul (Fin 4) (Fin (3602879701896397 / 36028797018963968)) =
     Fin (3602879701896397 / 9007199254740992)"
  "fmul (Fin 5) (Fin (3602879701896397 / 36028797018963968)) = Fin (1 / 2)"
  by code_simp+

lemma add_tenths_Suc: "add_tenths (Suc n) m = fadd (add_tenths n m) (Fin (fl (1 / 10)))"
  by (simp add: add_tenths_def del: fadd.simps)

lemma add_tenths_values:
  "add_tenths 1 (Fin 0) = Fin (3602879701896397 / 36028797018963968)"
  "add_tenths 2 (Fin 0) = Fin (3602879701896397 / 18014398509481984)"
  "add_tenths 3 (Fin 0) = Fin (1351079888211149 / 4503599627370496)"
  "add_tenths 4 (Fin 0) = Fin (3602879701896397 / 9007199254740992)"
  "add_tenths 5 (Fin 0) = Fin (1 / 2)"
proof -
  have n: "(1::nat) = Suc 0" "(2::nat) = Suc (Suc 0)" "(3::nat) = Suc (Suc (Suc 0))"
    "(4::nat) = Suc (Suc (Suc (Suc 0)))" "(5::nat) = Suc (Suc (Suc (Suc (Suc 0))))"
    by simp_all
  show "add_tenths 1 (Fin 0) = Fin (3602879701896397 / 36028797018963968)"
    by (simp only: n(1) add_tenths_Suc add_tenths_0 tenth_value tenth_sums)
  show "add_tenths 2 (Fin 0) = Fin (3602879701896397 / 18014398509481984)"
    by (simp only: n(2) add_tenths_Suc add_tenths_0 tenth_value tenth_sums)
  show "add_tenths 3 (Fin 0) = Fin (1351079888211149 / 4503599627370496)"
    by (simp only: n(3) add_tenths_Suc add_tenths_0 tenth_value tenth_sums)
  show "add_tenths 4 (Fin 0) = Fin (3602879701896397 / 9007199254740992)"
    by (simp only: n(4) add_tenths_Suc add_tenths_0 tenth_value tenth_sums)
  show "add_tenths 5 (Fin 0) = Fin (1 / 2)"
    by (simp only: n(5) add_tenths_Suc add_tenths_0 tenth_value tenth_sums)
qed

lemma tenths_table:
  "add_tenths 1 (Fin 0) = fmul (Fin (of_nat 1)) (add_tenths 1 (Fin 0))"
  "add_tenths 2 (Fin 0) = fmul (Fin (of_nat 1)) (add_tenths 2 (Fin 0))"
  "add_tenths 3 (Fin 0) = fmul (Fin (of_nat 1)) (add_tenths 3 (Fin 0))"
  "add_tenths 4 (Fin 0) = fmul (Fin (of_nat 1)) (add_tenths 4 (Fin 0))"
  "add_tenths 5 (Fin 0) = fmul (Fin (of_nat 1)) (add_tenths 5 (Fin 0))"
  "add_tenths 2 (Fin 0) = fmul (Fin (of_nat 2)) (add_tenths 1 (Fin 0))"
  "add_tenths 4 (Fin 0) = fmul (Fin (of_nat 2)) (add_tenths 2 (Fin 0))"
  "add_tenths 3 (Fin 0) = fmul (Fin (of_nat 3)) (add_tenths 1 (Fin 0))"
  "add_tenths 4 (Fin 0) = fmul (Fin (of_nat 4)) (add_tenths 1 (Fin 0))"
  "add_tenths 5 (Fin 0) = fmul (Fin (of_nat 5)) (add_tenths 1 (Fin 0))"
  by (simp_all only: add_tenths_values of_nat_1 of_nat_numeral tenth_products)

lemma fmul_zero_right: "fmul (Fin x) (Fin 0) = Fin 0"
proof -
  have "to_number 0 = Fin 0" by code_simp
  then show ?thesis by simp
qed

lemma add_tenths_linear:
  assumes k: "1 \<le> k" and ka: "k * a \<le> 5"
  shows "add_tenths (k * a) (Fin 0) = fmul (Fin (of_nat k)) (add_tenths a (Fin 0))"
proof (cases "a = 0")
  case True
  then show ?thesis by (simp only: mult_0_right add_tenths_0 fmul_zero_right)
next
  case False
  then have a: "1 \<le> a" by simp
  have k1a: "k * 1 \<le> k * a" using a by (rule mult_le_mono2)
  have k5: "k \<le> 5" using le_trans[OF k1a ka] by (simp only: nat_mult_1_right)
  have a1k: "1 * a \<le> k * a" using k by (rule mult_le_mono1)
  have a5: "a \<le> 5" using le_trans[OF a1k ka] by (simp only: nat_mult_1)
  have "k = 1 \<or> k = 2 \<or> k = 3 \<or> k = 4 \<or> k = 5" using k k5 by arith
  then show ?thesis
  proof (elim disjE)
    assume k1: "k = 1"
    have "a = 1 \<or> a = 2 \<or> a = 3 \<or> a = 4 \<or> a = 5" using a a5 by arith
    then show ?thesis
    proof (elim disjE)
      assume a1: "a = 1"
      show ?thesis unfolding k1 a1 nat_mult_1 by (rule tenths_table(1))
    next
      assume a2: "a = 2"
      show ?thesis unfolding k1 a2 nat_mult_1 by (rule tenths_table(2))
    next
      assume a3: "a = 3"
      show ?thesis unfolding k1 a3 nat_mult_1 by (rule tenths_table(3))
    next
      assume a4: "a = 4"
      show ?thesis unfolding k1 a4 nat_mult_1 by (rule tenths_table(4))
    next
      assume a5: "a = 5"
      show ?thesis unfolding k1 a5 nat_mult_1 by (rule tenths_table(5))
    qed
  next
    assume k2: "k = 2"
    have "a = 1 \<or> a = 2" using a ka unfolding k2 by arith
    then show ?thesis
    proof
      assume a1: "a = 1"
      show ?thesis unfolding k2 a1 nat_mult_1_right by (rule tenths_table(6))
    next
      assume a2: "a = 2"
      have m: "(2::nat) * 2 = 4" by simp
      show ?thesis unfolding k2 a2 m by (rule tenths_table(7))
    qed
  next
    assume k3: "k = 3"
    have a1: "a = 1" using a ka unfolding k3 by arith
    show ?thesis unfolding k3 a1 nat_mult_1_right by (rule tenths_table(8))
  next
    assume k4: "k = 4"
    have a1: "a = 1" using a ka unfolding k4 by arith
    show ?thesis unfolding k4 a1 nat_mult_1_right by (rule tenths_table(9))
  next
    assume k5: "k = 5"
    have a1: "a = 1" using a ka unfolding k5 by arith
    show ?thesis unfolding k5 a1 nat_mult_1_right by (rule tenths_table(10))
  qed
qed

text \<open>
  C4, amended. Take a primitive whose power generation, power consumption and visibility
  score are integers and whose capabilities are all registered (AESTHETIC included), and
  \<open>k \<ge> 1\<close> copies such that \<open>k * |power_consumption|\<close>, \<open>k * n\<close>,
  \<open>k * n * |power_generation|\<close> and \<open>k * n * |visibility_score|\<close> are below \<open>2^53\<close>
  (\<open>n\<close> the number of declared capabilities). Then ticking the \<open>k\<close> copies succeeds, and
  power_consumed, power_delta, light_level_delta and visibility_score_delta are exactly
  \<open>k\<close> times the fields of ticking one copy. With \<open>a\<close> the number of AESTHETIC entries of
  the primitive, morale_delta is the sum of \<open>a\<close> contributions of 0.1 for one copy and of
  \<open>k * a\<close> contributions for \<open>k\<close> copies, each addition rounded; it is exactly \<open>k\<close> times
  the single-copy field as long as \<open>k * a \<le> 5\<close> (in particular for every primitive
  without AESTHETIC).
\<close>

theorem tick_linear_integers:
  fixes g c v :: int
  assumes sim: "sim p = \<lparr>power_generation = Fin (of_int g), power_consumption = Fin (of_int c),
                          visibility_score = Fin (of_int v)\<rparr>"
    and names: "set (capabilities p) \<subseteq> set registry_names"
    and k: "1 \<le> k"
    and bc: "int k * \<bar>c\<bar> < 2 ^ 53"
    and bg: "int k * (int (length (capabilities p)) * \<bar>g\<bar>) < 2 ^ 53"
    and bl: "int k * int (length (capabilities p)) < 2 ^ 53"
    and bv: "int k * (int (length (capabilities p)) * \<bar>v\<bar>) < 2 ^ 53"
  shows "\<exists>o1 ok. tick [p] sectorState seed = Inr o1 \<and>
     tick (replicate k p) sectorState seed = Inr ok \<and>
     power_consumed ok = fmul (Fin (of_nat k)) (power_consumed o1) \<and>
     power_delta ok = fmul (Fin (of_nat k)) (power_delta o1) \<and>
     light_level_delta ok = fmul (Fin (of_nat k)) (light_level_delta o1) \<and>
     visibility_score_delta ok = fmul (Fin (of_nat k)) (visibility_score_delta o1) \<and>
     morale_delta o1 = add_tenths (count_list (capabilities p) ''AESTHETIC'') (Fin 0) \<and>
     morale_delta ok = add_tenths (k * count_list (capabilities p) ''AESTHETIC'') (Fin 0) \<and>
     (k * count_list (capabilities p) ''AESTHETIC'' \<le> 5 \<longrightarrow>
        morale_delta ok = fmul (Fin (of_nat k)) (morale_delta o1))"
proof -
  define len where "len = int (length (capabilities p))"
  define nG where "nG = int (count_list (capabilities p) ''POWER_GENERATION'')"
  define nL where "nL = int (count_list (capabilities p) ''LIGHTING'')"
  define nW where "nW = int (count_list (capabilities p) ''WAYFINDING'')"
  define nA where "nA = count_list (capabilities p) ''AESTHETIC''"
  define l :: int where "l = (if 0 < c then 1 else 0)"
  have cnt: "0 \<le> nG" "nG \<le> len" "0 \<le> nL" "nL \<le> len" "0 \<le> nW" "nW \<le> len"
    by (simp_all add: nG_def nL_def nW_def len_def count_le_length)
  have l01: "\<bar>l\<bar> \<le> 1" by (simp add: l_def)
  have k1: "1 \<le> int k" and k0: "0 \<le> int k" using k by simp_all
  have len0: "0 \<le> len" by (simp add: len_def)
  \<comment> \<open>the totals of \<open>k\<close> copies stay below \<open>2^53\<close>\<close>
  have tG: "\<bar>int k * (nG * g)\<bar> \<le> int k * (len * \<bar>g\<bar>)"
  proof -
    have "\<bar>nG * g\<bar> = nG * \<bar>g\<bar>" using cnt(1) by (simp add: abs_mult)
    also have "\<dots> \<le> len * \<bar>g\<bar>" using cnt(2) by (simp add: mult_right_mono)
    finally have "int k * \<bar>nG * g\<bar> \<le> int k * (len * \<bar>g\<bar>)"
      using k0 by (rule mult_left_mono)
    then show ?thesis using k0 by (simp add: abs_mult)
  qed
  have tW: "\<bar>int k * (nW * v)\<bar> \<le> int k * (len * \<bar>v\<bar>)"
  proof -
    have "\<bar>nW * v\<bar> = nW * \<bar>v\<bar>" using cnt(5) by (simp add: abs_mult)
    also have "\<dots> \<le> len * \<bar>v\<bar>" using cnt(6) by (simp add: mult_right_mono)
    finally have "int k * \<bar>nW * v\<bar> \<le> int k * (len * \<bar>v\<bar>)"
      using k0 by (rule mult_left_mono)
    then show ?thesis using k0 by (simp add: abs_mult)
  qed
  have tL: "\<bar>int k * (nL * l)\<bar> \<le> int k * len"
  proof -
    have "\<bar>nL * l\<bar> = nL * \<bar>l\<bar>" using cnt(3) by (simp add: abs_mult)
    also have "\<dots> \<le> nL * 1" using l01 cnt(3) by (rule mult_left_mono)
    also have "\<dots> \<le> len" using cnt(4) by simp
    finally have "int k * \<bar>nL * l\<bar> \<le> int k * len"
      using k0 by (rule mult_left_mono)
    then show ?thesis using k0 by (simp add: abs_mult)
  qed
  have tC: "\<bar>int k * c\<bar> = int k * \<bar>c\<bar>" using k0 by (simp add: abs_mult)
  have fG: "\<bar>int k * (nG * g)\<bar> < 2 ^ 53" using tG bg by (simp add: len_def)
  have fW: "\<bar>int k * (nW * v)\<bar> < 2 ^ 53" using tW bv by (simp add: len_def)
  have fL: "\<bar>int k * (nL * l)\<bar> < 2 ^ 53" using tL bl by (simp add: len_def)
  have fC: "\<bar>int k * c\<bar> < 2 ^ 53" using tC bc by simp
  \<comment> \<open>so do those of one copy\<close>
  have one: "X \<le> int k * X" if "0 \<le> X" for X :: int
    using mult_right_mono[OF k1 that] by simp
  have b1: "\<bar>0::int\<bar> + int 1 * (int (length (capabilities p)) * \<bar>g\<bar>) < 2 ^ 53"
    using one[of "int (length (capabilities p)) * \<bar>g\<bar>"] bg by simp
  have b2: "\<bar>0::int\<bar> + int 1 * \<bar>c\<bar> < 2 ^ 53"
    using one[of "\<bar>c\<bar>"] bc by simp
  have b3: "\<bar>0::int\<bar> + int 1 * int (length (capabilities p)) < 2 ^ 53"
    using one[of "int (length (capabilities p))"] bl by simp
  have b4: "\<bar>0::int\<bar> + int 1 * (int (length (capabilities p)) * \<bar>v\<bar>) < 2 ^ 53"
    using one[of "int (length (capabilities p)) * \<bar>v\<bar>"] bv by simp
  have kg: "\<bar>0::int\<bar> + int k * (int (length (capabilities p)) * \<bar>g\<bar>) < 2 ^ 53" using bg by simp
  have kc: "\<bar>0::int\<bar> + int k * \<bar>c\<bar> < 2 ^ 53" using bc by simp
  have kl: "\<bar>0::int\<bar> + int k * int (length (capabilities p)) < 2 ^ 53" using bl by simp
  have kv: "\<bar>0::int\<bar> + int k * (int (length (capabilities p)) * \<bar>v\<bar>) < 2 ^ 53" using bv by simp
  have single: "tick [p] sectorState seed =
      Inr (int_output (nG * g) c (nL * l) (add_tenths nA (Fin 0)) (nW * v))"
    using tick_loop_int[OF sim names b1 b2 b3 b4, of sectorState "Fin 0" "createRng seed"]
    by (simp add: tick_def zero_output_int nG_def nL_def nW_def nA_def l_def)
  have copies: "tick (replicate k p) sectorState seed =
      Inr (int_output (int k * (nG * g)) (int k * c) (int k * (nL * l))
             (add_tenths (k * nA) (Fin 0)) (int k * (nW * v)))"
    using tick_loop_int[OF sim names kg kc kl kv, of sectorState "Fin 0" "createRng seed"]
    by (simp add: tick_def zero_output_int nG_def nL_def nW_def nA_def l_def)
  have kk: "Fin (of_nat k) = Fin (of_int (int k))" by simp
  have mor: "k * nA \<le> 5 \<longrightarrow>
      add_tenths (k * nA) (Fin 0) = fmul (Fin (of_nat k)) (add_tenths nA (Fin 0))"
    using add_tenths_linear[OF k] by blast
  let ?o1 = "int_output (nG * g) c (nL * l) (add_tenths nA (Fin 0)) (nW * v)"
  let ?ok = "int_output (int k * (nG * g)) (int k * c) (int k * (nL * l))
             (add_tenths (k * nA) (Fin 0)) (int k * (nW * v))"
  have p1: "power_consumed ?ok = fmul (Fin (of_nat k)) (power_consumed ?o1)"
    unfolding kk by (simp add: int_output_def fmul_int[OF fC] del: fmul.simps of_int_mult of_int_of_nat_eq)
  have p2: "power_delta ?ok = fmul (Fin (of_nat k)) (power_delta ?o1)"
    unfolding kk by (simp add: int_output_def fmul_int[OF fG] del: fmul.simps of_int_mult of_int_of_nat_eq)
  have p3: "light_level_delta ?ok = fmul (Fin (of_nat k)) (light_level_delta ?o1)"
    unfolding kk by (simp add: int_output_def fmul_int[OF fL] del: fmul.simps of_int_mult of_int_of_nat_eq)
  have p4: "visibility_score_delta ?ok = fmul (Fin (of_nat k)) (visibility_score_delta ?o1)"
    unfolding kk by (simp add: int_output_def fmul_int[OF fW] del: fmul.simps of_int_mult of_int_of_nat_eq)
  have p5: "morale_delta ?o1 = add_tenths nA (Fin 0)"
    and p6: "morale_delta ?ok = add_tenths (k * nA) (Fin 0)"
    by (simp_all add: int_output_def)
  have p7: "k * nA \<le> 5 \<longrightarrow> morale_delta ?ok = fmul (Fin (of_nat k)) (morale_delta ?o1)"
    unfolding p5 p6 by (rule mor)
  show ?thesis
    unfolding nA_def[symmetric]
    by (intro exI[of _ ?o1] exI[of _ ?ok] conjI single copies p1 p2 p3 p4 p5 p6 p7)
qed

theorem tick_linear_integers_witness:
  "sim example_strip =
     \<lparr>power_generation = Fin (of_int 0), power_consumption = Fin (of_int 2),
      visibility_score = Fin (of_int 5)\<rparr> \<and>
   set (capabilities example_strip) \<subseteq> set registry_names \<and>
   (1::nat) \<le> 3 \<and> int 3 * \<bar>2\<bar> < 2 ^ 53 \<and>
   int 3 * (int (length (capabilities example_strip)) * \<bar>0\<bar>) < 2 ^ 53 \<and>
   int 3 * int (length (capabilities example_strip)) < 2 ^ 53 \<and>
   int 3 * (int (length (capabilities example_strip)) * \<bar>5\<bar>) < 2 ^ 53 \<and>
   3 * count_list (capabilities example_strip) ''AESTHETIC'' \<le> 5 \<and>
   (\<exists>o1 ok. tick [example_strip] () 42 = Inr o1 \<and>
     tick (replicate 3 example_strip) () 42 = Inr ok \<and>
     power_consumed ok = fmul (Fin (of_nat 3)) (power_consumed o1) \<and>
     power_delta ok = fmul (Fin (of_nat 3)) (power_delta o1) \<and>
     light_level_delta ok = fmul (Fin (of_nat 3)) (light_level_delta o1) \<and>
     visibility_score_delta ok = fmul (Fin (of_nat 3)) (visibility_score_delta o1) \<and>
     morale_delta o1 = add_tenths (count_list (capabilities example_strip) ''AESTHETIC'') (Fin 0) \<and>
     morale_delta ok =
       add_tenths (3 * count_list (capabilities example_strip) ''AESTHETIC'') (Fin 0) \<and>
     morale_delta ok = fmul (Fin (of_nat 3)) (morale_delta o1)) \<and>
   (\<exists>o1 ok. tick [example_strip] () 42 = Inr o1 \<and>
     tick (replicate 6 example_strip) () 42 = Inr ok \<and>
     power_consumed ok = fmul (Fin (of_nat 6)) (power_consumed o1) \<and>
     power_delta ok = fmul (Fin (of_nat 6)) (power_delta o1) \<and>
     light_level_delta ok = fmul (Fin (of_nat 6)) (light_level_delta o1) \<and>
     visibility_score_delta ok = fmul (Fin (of_nat 6)) (visibility_score_delta o1) \<and>
     morale_delta ok =
       add_tenths (6 * count_list (capabilities example_strip) ''AESTHETIC'') (Fin 0))"
proof -
  have s: "sim example_strip =
     \<lparr>power_generation = Fin (of_int 0), power_consumption = Fin (of_int 2),
      visibility_score = Fin (of_int 5)\<rparr>"
    by (simp add: example_strip_def)
  have n: "set (capabilities example_strip) \<subseteq> set registry_names"
    by (simp add: example_strip_def registry_names_def registry_def)
  have len: "length (capabilities example_strip) = 3"
    by (simp add: example_strip_def)
  have cA: "count_list (capabilities example_strip) ''AESTHETIC'' = 1"
    by (simp add: example_strip_def)
  have h: "(1::nat) \<le> 3" "int 3 * \<bar>2\<bar> < 2 ^ 53"
    "int 3 * (int (length (capabilities example_strip)) * \<bar>0\<bar>) < 2 ^ 53"
    "int 3 * int (length (capabilities example_strip)) < 2 ^ 53"
    "int 3 * (int (length (capabilities example_strip)) * \<bar>5\<bar>) < 2 ^ 53"
    by (simp_all add: len)
  have h6: "(1::nat) \<le> 6" "int 6 * \<bar>2\<bar> < 2 ^ 53"
    "int 6 * (int (length (capabilities example_strip)) * \<bar>0\<bar>) < 2 ^ 53"
    "int 6 * int (length (capabilities example_strip)) < 2 ^ 53"
    "int 6 * (int (length (capabilities example_strip)) * \<bar>5\<bar>) < 2 ^ 53"
    by (simp_all add: len)
  have a3: "3 * count_list (capabilities example_strip) ''AESTHETIC'' \<le> 5"
    by (simp add: cA)
  have three: "\<exists>o1 ok. tick [example_strip] () 42 = Inr o1 \<and>
     tick (replicate 3 example_strip) () 42 = Inr ok \<and>
     power_consumed ok = fmul (Fin (of_nat 3)) (power_consumed o1) \<and>
     power_delta ok = fmul (Fin (of_nat 3)) (power_delta o1) \<and>
     light_level_delta ok = fmul (Fin (of_nat 3)) (light_level_delta o1) \<and>
     visibility_score_delta ok = fmul (Fin (of_nat 3)) (visibility_score_delta o1) \<and>
     morale_delta o1 = add_tenths (count_list (capabilities example_strip) ''AESTHETIC'') (Fin 0) \<and>
     morale_delta ok =
       add_tenths (3 * count_list (capabilities example_strip) ''AESTHETIC'') (Fin 0) \<and>
     morale_delta ok = fmul (Fin (of_nat 3)) (morale_delta o1)"
    using tick_linear_integers[OF s n h, of "()" 42] a3 by blast
  have six: "\<exists>o1 ok. tick [example_strip] () 42 = Inr o1 \<and>
     tick (replicate 6 example_strip) () 42 = Inr ok \<and>
     power_consumed ok = fmul (Fin (of_nat 6)) (power_consumed o1) \<and>
     power_delta ok = fmul (Fin (of_nat 6)) (power_delta o1) \<and>
     light_level_delta ok = fmul (Fin (of_nat 6)) (light_level_delta o1) \<and>
     visibility_score_delta ok = fmul (Fin (of_nat 6)) (visibility_score_delta o1) \<and>
     morale_delta ok =
       add_tenths (6 * count_list (capabilities example_strip) ''AESTHETIC'') (Fin 0)"
    using tick_linear_integers[OF s n h6, of "()" 42] by blast
  show ?thesis
    by (intro conjI s n h a3 three six)
qed

end
